theory Spec2Isabelle
  imports Main "HOL-Library.Word"
begin

unbundle bit_operations_syntax

section \<open>Common definitions\<close>

text \<open>
  Page ids and frame ids are the 32-bit signed integers \<open>page_id_t\<close> and \<open>frame_id_t\<close>
  of the source. No property below depends on their overflow (a pool would have to
  allocate 2^31 pages), so they are modelled as \<open>int\<close>.
\<close>

type_synonym page_id_t = int
type_synonym frame_id_t = int

text \<open>
  Modelled from the spec: the constant \<open>INVALID_PAGE_ID\<close> of the configuration header
  (\<open>page_id = INVALID\<close> denotes an empty frame); the header is not among the sources,
  the value is the one every use in the source is compatible with.
\<close>

definition INVALID_PAGE_ID :: page_id_t where
  "INVALID_PAGE_ID = - 1"

text \<open>
  What stops an operation short of a result: a failed \<open>assert\<close>, and the undefined
  behaviour of dereferencing a null pointer or the end iterator of a map, of reading
  a variable that was never written, of shifting by a negative count, and of reading a
  page's bytes as a kind of page they were not written as.
\<close>

datatype fault =
  AssertionFailed | NullDereference | EndIteratorDereference | Uninitialised | UndefinedShift
  | WrongPageKind

section \<open>LRU replacer (src/buffer/lru\_replacer.cpp)\<close>

text \<open>
  \<open>lru_list_\<close> is the recency list (front = oldest), \<open>lru_map_\<close> maps a frame id to
  its list node; only the key set of the map is observable, so it is kept as a set.
\<close>

record LRUReplacer =
  lru_size :: nat
  lru_list :: "frame_id_t list"
  lru_map :: "frame_id_t set"

definition LRUReplacer_new :: "nat \<Rightarrow> LRUReplacer" where
  "LRUReplacer_new num_pages = \<lparr>lru_size = num_pages, lru_list = [], lru_map = {}\<rparr>"

definition Victim :: "LRUReplacer \<Rightarrow> frame_id_t option \<times> LRUReplacer" where
  "Victim r =
     (case lru_list r of
        [] \<Rightarrow> (None, r)
      | f # rest \<Rightarrow> (Some f, r\<lparr>lru_list := rest, lru_map := lru_map r - {f}\<rparr>))"

definition Pin :: "LRUReplacer \<Rightarrow> frame_id_t \<Rightarrow> LRUReplacer" where
  "Pin r frame_id =
     (if frame_id \<notin> lru_map r then r
      else r\<lparr>lru_list := remove1 frame_id (lru_list r), lru_map := lru_map r - {frame_id}\<rparr>)"

text \<open>
  \<open>Unpin\<close> ends with \<open>assert(Victim(&victim))\<close> when the list has outgrown its capacity;
  the list is not empty there (the frame was just appended), so the assertion holds and
  its effect is the eviction of the oldest entry.
\<close>

definition Unpin :: "LRUReplacer \<Rightarrow> frame_id_t \<Rightarrow> LRUReplacer" where
  "Unpin r frame_id =
     (if frame_id \<in> lru_map r then r
      else
        let r1 = r\<lparr>lru_list := lru_list r @ [frame_id], lru_map := insert frame_id (lru_map r)\<rparr>
        in if length (lru_list r1) > lru_size r1 then snd (Victim r1) else r1)"

definition Size :: "LRUReplacer \<Rightarrow> nat" where
  "Size r = length (lru_list r)"

section \<open>Buffer pool manager instance (src/buffer/buffer\_pool\_manager\_instance.cpp)\<close>

text \<open>
  Modelled from the spec: the \<open>Page\<close> class, which is not among the sources. A frame
  holds the page's bytes (\<open>'d\<close>, whose \<open>0\<close> is the zeroed page of \<open>ResetMemory\<close>) and
  its metadata; it starts empty (\<open>page_id = INVALID\<close>), unpinned, clean and zeroed.
\<close>

record 'd Page =
  data :: 'd
  page_id :: page_id_t
  pin_count :: int
  is_dirty :: bool

definition Page_new :: "('d::zero) Page" where
  "Page_new = \<lparr>data = 0, page_id = INVALID_PAGE_ID, pin_count = 0, is_dirty = False\<rparr>"

text \<open>
  The state of one instance. \<open>pages\<close> is the frame array; it is read and written at
  frame ids taken from the free list, the page table or the replacer, which hold ids
  below \<open>pool_size\<close> only, so the array is a function of the frame id here. The last
  three fields are the disk manager's side: \<open>disk\<close> holds the bytes last written to
  each page id, \<open>disk_writes\<close> lists the page ids of the \<open>WritePage\<close> calls and
  \<open>deallocated\<close> those of the \<open>DeallocatePage\<close> calls, latest first.
\<close>

record 'd BufferPoolManagerInstance =
  pool_size :: nat
  num_instances :: nat
  instance_index :: nat
  next_page_id :: page_id_t
  pages :: "frame_id_t \<Rightarrow> 'd Page"
  replacer :: LRUReplacer
  free_list :: "frame_id_t list"
  page_table :: "page_id_t \<rightharpoonup> frame_id_t"
  disk :: "page_id_t \<rightharpoonup> 'd"
  disk_writes :: "page_id_t list"
  deallocated :: "page_id_t list"

definition BufferPoolManagerInstance_new ::
  "nat \<Rightarrow> nat \<Rightarrow> nat \<Rightarrow> fault + ('d::zero) BufferPoolManagerInstance" where
  "BufferPoolManagerInstance_new psize ninst idx =
     (if \<not> (ninst > 0) then Inl AssertionFailed
      else if \<not> (idx < ninst) then Inl AssertionFailed
      else Inr \<lparr>pool_size = psize, num_instances = ninst, instance_index = idx,
                next_page_id = int idx,
                pages = (\<lambda>_. Page_new),
                replacer = LRUReplacer_new psize,
                free_list = map int [0..<psize],
                page_table = Map.empty,
                disk = Map.empty, disk_writes = [], deallocated = []\<rparr>)"

text \<open>
  Modelled from the spec: the disk manager's \<open>WritePage\<close> and \<open>ReadPage\<close> and the
  header's \<open>DeallocatePage\<close>, none of them among the sources. A write stores the
  page's bytes under its id, a read returns the bytes last written (zeroes for a page
  never written), and a deallocation is recorded.
\<close>

definition WritePage :: "page_id_t \<Rightarrow> 'd \<Rightarrow> 'd BufferPoolManagerInstance \<Rightarrow> 'd BufferPoolManagerInstance" where
  "WritePage p d s = s\<lparr>disk := (disk s)(p \<mapsto> d), disk_writes := p # disk_writes s\<rparr>"

definition ReadPage :: "('d::zero) BufferPoolManagerInstance \<Rightarrow> page_id_t \<Rightarrow> 'd" where
  "ReadPage s p = (case disk s p of None \<Rightarrow> 0 | Some d \<Rightarrow> d)"

definition DeallocatePage :: "page_id_t \<Rightarrow> 'd BufferPoolManagerInstance \<Rightarrow> 'd BufferPoolManagerInstance" where
  "DeallocatePage p s = s\<lparr>deallocated := p # deallocated s\<rparr>"

definition FindPage :: "'d BufferPoolManagerInstance \<Rightarrow> page_id_t \<Rightarrow> frame_id_t" where
  "FindPage s p = (case page_table s p of None \<Rightarrow> INVALID_PAGE_ID | Some f \<Rightarrow> f)"

definition FlushPageReally :: "page_id_t \<Rightarrow> 'd BufferPoolManagerInstance \<Rightarrow> 'd BufferPoolManagerInstance" where
  "FlushPageReally p s =
     (let target_frame = FindPage s p in
      if target_frame = INVALID_PAGE_ID then s
      else if is_dirty (pages s target_frame) then WritePage p (data (pages s target_frame)) s
      else s)"

definition FlushPgImp :: "page_id_t \<Rightarrow> 'd BufferPoolManagerInstance \<Rightarrow> bool \<times> 'd BufferPoolManagerInstance" where
  "FlushPgImp p s =
     (let target_frame = FindPage s p in
      if target_frame = INVALID_PAGE_ID then (False, s)
      else
        let s1 = FlushPageReally p s in
        (True, s1\<lparr>pages := (pages s1)(target_frame := (pages s1 target_frame)\<lparr>is_dirty := False\<rparr>)\<rparr>))"

definition ValidatePageId :: "'d BufferPoolManagerInstance \<Rightarrow> page_id_t \<Rightarrow> bool" where
  "ValidatePageId s p = (p mod int (num_instances s) = int (instance_index s))"

definition AllocatePage :: "'d BufferPoolManagerInstance \<Rightarrow> fault + (page_id_t \<times> 'd BufferPoolManagerInstance)" where
  "AllocatePage s =
     (let next = next_page_id s;
          s1 = s\<lparr>next_page_id := next_page_id s + int (num_instances s)\<rparr>
      in if ValidatePageId s1 next then Inr (next, s1) else Inl AssertionFailed)"

definition FindFreshPage :: "'d BufferPoolManagerInstance \<Rightarrow> frame_id_t \<times> 'd BufferPoolManagerInstance" where
  "FindFreshPage s =
     (case free_list s of
        f # rest \<Rightarrow> (f, s\<lparr>free_list := rest\<rparr>)
      | [] \<Rightarrow>
         (case Victim (replacer s) of
            (Some f, r1) \<Rightarrow>
              let s1 = s\<lparr>replacer := r1\<rparr>;
                  p = page_id (pages s1 f);
                  s2 = FlushPageReally p s1;
                  s3 = s2\<lparr>page_table := (page_table s2)(p := None)\<rparr>
              in (f, s3\<lparr>pages := (pages s3)(f := (pages s3 f)\<lparr>is_dirty := False\<rparr>)\<rparr>)
          | (None, r1) \<Rightarrow> (INVALID_PAGE_ID, s\<lparr>replacer := r1\<rparr>)))"

text \<open>
  \<open>NewPgImp\<close> and \<open>FetchPgImp\<close> return a pointer into the frame array or \<open>nullptr\<close>:
  here the frame id, or \<open>None\<close>. \<open>NewPgImp\<close> also writes the new page id through its
  output parameter, on success only.
\<close>

definition NewPgImp ::
  "('d::zero) BufferPoolManagerInstance \<Rightarrow> fault + ((page_id_t \<times> frame_id_t) option \<times> 'd BufferPoolManagerInstance)" where
  "NewPgImp s =
     (case FindFreshPage s of (fresh_frame, s1) \<Rightarrow>
        if fresh_frame = INVALID_PAGE_ID then Inr (None, s1)
        else
          (case AllocatePage s1 of
             Inl e \<Rightarrow> Inl e
           | Inr (new_page, s2) \<Rightarrow>
               let pg = pages s2 fresh_frame;
                   pg1 = pg\<lparr>page_id := new_page, pin_count := pin_count pg + 1, data := 0, is_dirty := False\<rparr>
               in Inr (Some (new_page, fresh_frame),
                       s2\<lparr>pages := (pages s2)(fresh_frame := pg1),
                          page_table := (page_table s2)(new_page \<mapsto> fresh_frame)\<rparr>)))"

definition FetchPgImp ::
  "page_id_t \<Rightarrow> ('d::zero) BufferPoolManagerInstance \<Rightarrow> frame_id_t option \<times> 'd BufferPoolManagerInstance" where
  "FetchPgImp p s =
     (let available_frame = FindPage s p in
      if available_frame \<noteq> INVALID_PAGE_ID then
        let pg = pages s available_frame in
        (Some available_frame,
         s\<lparr>replacer := Pin (replacer s) available_frame,
           pages := (pages s)(available_frame := pg\<lparr>pin_count := pin_count pg + 1, is_dirty := True\<rparr>)\<rparr>)
      else
        (case FindFreshPage s of (fresh, s1) \<Rightarrow>
           if fresh = INVALID_PAGE_ID then (None, s1)
           else
             let s2 = s1\<lparr>page_table := (page_table s1)(p \<mapsto> fresh),
                        replacer := Pin (replacer s1) fresh\<rparr>;
                 pg = pages s2 fresh;
                 pg1 = pg\<lparr>page_id := p, pin_count := pin_count pg + 1, is_dirty := False,
                          data := ReadPage s2 p\<rparr>
             in (Some fresh, s2\<lparr>pages := (pages s2)(fresh := pg1)\<rparr>)))"

definition DeletePgImp :: "page_id_t \<Rightarrow> ('d::zero) BufferPoolManagerInstance \<Rightarrow> bool \<times> 'd BufferPoolManagerInstance" where
  "DeletePgImp p s =
     (let s1 = DeallocatePage p s;
          target_frame = FindPage s1 p
      in if target_frame = INVALID_PAGE_ID then (True, s1)
         else if pin_count (pages s1 target_frame) > 0 then (False, s1)
         else
           let pg = pages s1 target_frame in
           (True,
            s1\<lparr>page_table := (page_table s1)(p := None),
               pages := (pages s1)(target_frame := pg\<lparr>page_id := INVALID_PAGE_ID, is_dirty := False, data := 0\<rparr>),
               free_list := free_list s1 @ [target_frame]\<rparr>))"

definition UnpinPgImp :: "page_id_t \<Rightarrow> bool \<Rightarrow> 'd BufferPoolManagerInstance \<Rightarrow> bool \<times> 'd BufferPoolManagerInstance" where
  "UnpinPgImp p dirty s =
     (let target_frame = FindPage s p in
      if target_frame = INVALID_PAGE_ID \<or> pin_count (pages s target_frame) = 0 then (False, s)
      else
        let pg = pages s target_frame;
            pg1 = (if dirty then pg\<lparr>is_dirty := dirty\<rparr> else pg);
            pg2 = pg1\<lparr>pin_count := pin_count pg1 - 1\<rparr>;
            s1 = s\<lparr>pages := (pages s)(target_frame := pg2)\<rparr>
        in if pin_count pg2 = 0
           then (True, FlushPageReally p (s1\<lparr>replacer := Unpin (replacer s1) target_frame\<rparr>))
           else (True, s1))"


section \<open>Lock manager (src/concurrency/lock\_manager.cpp)\<close>

datatype TransactionState = GROWING | SHRINKING | COMMITTED | ABORTED

datatype IsolationLevel = READ_UNCOMMITTED | REPEATABLE_READ | READ_COMMITTED

datatype LockMode = SHARED | EXCLUSIVE

datatype AbortReason =
  LOCK_ON_SHRINKING | LOCKSHARED_ON_READ_UNCOMMITTED | UPGRADE_CONFLICT | DEADLOCK

type_synonym txn_id_t = int

text \<open>A row id: page id and slot number.\<close>

type_synonym RID = "int \<times> nat"

text \<open>
  Modelled from the spec: the constant \<open>INVALID_TXN_ID\<close> of the configuration header,
  which is not among the sources.
\<close>

definition INVALID_TXN_ID :: txn_id_t where
  "INVALID_TXN_ID = - 1"

text \<open>
  Modelled from the spec: the transaction object (an external collaborator: id, state,
  isolation level and the two owned-lock sets) and the declarations of the lock manager's
  header, which are not among the sources: a \<open>LockRequest\<close> is built ungranted, a
  \<open>LockRequestQueue\<close> starts empty with \<open>refcount = 0\<close> and both flags false, and
  \<open>insert\<close> appends at the tail (arrival order). \<open>notified\<close> counts the
  \<open>notify_all\<close> calls on the queue's condition variable.
\<close>

record Transaction =
  transaction_id :: txn_id_t
  state :: TransactionState
  isolation_level :: IsolationLevel
  shared_lock_set :: "RID set"
  exclusive_lock_set :: "RID set"

record LockRequest =
  txn_id :: txn_id_t
  lock_mode :: LockMode
  granted :: bool

record LockRequestQueue =
  request_queue :: "LockRequest list"
  refcount :: int
  waiting :: bool
  upgrading :: bool
  notified :: nat

definition LockRequest_new :: "txn_id_t \<Rightarrow> LockMode \<Rightarrow> LockRequest" where
  "LockRequest_new t m = \<lparr>txn_id = t, lock_mode = m, granted = False\<rparr>"

definition LockRequestQueue_new :: LockRequestQueue where
  "LockRequestQueue_new =
     \<lparr>request_queue = [], refcount = 0, waiting = False, upgrading = False, notified = 0\<rparr>"

definition insert_request :: "LockRequestQueue \<Rightarrow> LockRequest \<Rightarrow> LockRequestQueue" where
  "insert_request rq r = rq\<lparr>request_queue := request_queue rq @ [r]\<rparr>"

definition notify_all :: "LockRequestQueue \<Rightarrow> LockRequestQueue" where
  "notify_all rq = rq\<lparr>notified := notified rq + 1\<rparr>"

text \<open>
  \<open>LockRequestQueue::find\<close> returns a pointer to the first request of the transaction,
  or \<open>nullptr\<close>: here the position of that request in the queue.
\<close>

fun find_from :: "nat \<Rightarrow> LockRequest list \<Rightarrow> txn_id_t \<Rightarrow> nat option" where
  "find_from i [] t = None"
| "find_from i (item # rest) t = (if txn_id item = t then Some i else find_from (Suc i) rest t)"

definition find_request :: "LockRequestQueue \<Rightarrow> txn_id_t \<Rightarrow> nat option" where
  "find_request rq t = find_from 0 (request_queue rq) t"

text \<open>
  \<open>LockRequestQueue::remove\<close> returns a copy of the first request of the transaction,
  or a default request; the queue is the same afterwards, which is why the function
  returns no new queue.
\<close>

fun remove_from :: "LockRequest list \<Rightarrow> txn_id_t \<Rightarrow> LockRequest" where
  "remove_from [] t = LockRequest_new INVALID_TXN_ID SHARED"
| "remove_from (item # rest) t = (if txn_id item = t then item else remove_from rest t)"

definition remove_request :: "LockRequestQueue \<Rightarrow> txn_id_t \<Rightarrow> LockRequest" where
  "remove_request rq t = remove_from (request_queue rq) t"

text \<open>
  The lock manager together with the transaction objects it reaches through pointers:
  \<open>txns\<close> is the store of transaction objects by address, \<open>id_txn\<close> the manager's map
  from transaction id to such an address, \<open>lock_table\<close> its map from row id to queue.
\<close>

type_synonym txn_ref = nat

record LockManager =
  txns :: "txn_ref \<Rightarrow> Transaction"
  id_txn :: "txn_id_t \<rightharpoonup> txn_ref"
  lock_table :: "RID \<rightharpoonup> LockRequestQueue"

definition SetState :: "txn_ref \<Rightarrow> TransactionState \<Rightarrow> LockManager \<Rightarrow> LockManager" where
  "SetState a st s = s\<lparr>txns := (txns s)(a := (txns s a)\<lparr>state := st\<rparr>)\<rparr>"

definition emplace_txn :: "txn_id_t \<Rightarrow> txn_ref \<Rightarrow> LockManager \<Rightarrow> LockManager" where
  "emplace_txn t a s = (if id_txn s t = None then s\<lparr>id_txn := (id_txn s)(t \<mapsto> a)\<rparr> else s)"

text \<open>
  How a call ends: it returns, it throws a \<open>TransactionAbortException\<close>, it blocks on
  the queue's condition variable (its wait predicate is false), or it runs into
  undefined behaviour.
\<close>

datatype 'a outcome = Returns 'a | Throws txn_id_t AbortReason | Blocks | Undefined fault

text \<open>
  \<open>Prevent\<close> walks the requests of the queue; the queue's counters and the transaction
  objects change on the way, the list of requests does not. \<open>id_txn_[id]\<close> of an id that
  was never registered is a null pointer.
\<close>

fun Prevent_loop ::
  "txn_id_t \<Rightarrow> LockRequest list \<Rightarrow> LockRequestQueue \<times> LockManager \<Rightarrow> fault + (LockRequestQueue \<times> LockManager)" where
  "Prevent_loop t [] (rq, s) = Inr (rq, s)"
| "Prevent_loop t (request # rest) (rq, s) =
     (if granted request \<and> txn_id request = t then
        (case id_txn s (txn_id request) of
           None \<Rightarrow> Inl NullDereference
         | Some a \<Rightarrow>
             let s1 = SetState a ABORTED s;
                 rq1 = (if lock_mode request = SHARED then rq\<lparr>refcount := refcount rq - 1\<rparr>
                        else rq\<lparr>waiting := False\<rparr>)
             in Prevent_loop t rest (rq1, s1))
      else Prevent_loop t rest (rq, s))"

definition Prevent ::
  "txn_id_t \<Rightarrow> LockRequestQueue \<times> LockManager \<Rightarrow> fault + (LockRequestQueue \<times> LockManager)" where
  "Prevent t qs = Prevent_loop t (request_queue (fst qs)) qs"

definition put_queue :: "RID \<Rightarrow> LockRequestQueue \<Rightarrow> LockManager \<Rightarrow> LockManager" where
  "put_queue rid rq s = s\<lparr>lock_table := (lock_table s)(rid \<mapsto> rq)\<rparr>"

definition set_granted :: "LockRequestQueue \<Rightarrow> nat \<Rightarrow> LockRequestQueue" where
  "set_granted rq i = rq\<lparr>request_queue := (request_queue rq)[i := (request_queue rq ! i)\<lparr>granted := True\<rparr>]\<rparr>"

subsection \<open>LockShared\<close>

text \<open>
  Each locking call is split where the source waits on the condition variable:
  the part before the wait, the wait itself (\<open>cv_.wait(lock, pred)\<close> returns at once
  when \<open>pred\<close> holds and blocks otherwise; a woken caller evaluates it again on the
  state it finds), and the part after the wait.
\<close>

definition LockShared_granted :: "txn_ref \<Rightarrow> RID \<Rightarrow> LockRequestQueue \<times> LockManager \<Rightarrow> bool outcome \<times> LockManager" where
  "LockShared_granted txn rid qs =
     (case qs of (rq, s) \<Rightarrow>
        let t = transaction_id (txns s txn) in
        if state (txns s txn) = ABORTED then (Throws t DEADLOCK, put_queue rid rq s)
        else
          let s1 = s\<lparr>txns := (txns s)(txn := (txns s txn)\<lparr>shared_lock_set := insert rid (shared_lock_set (txns s txn))\<rparr>)\<rparr>;
              rq1 = rq\<lparr>refcount := refcount rq + 1\<rparr>;
              rq2 = (case find_request rq1 t of None \<Rightarrow> rq1 | Some i \<Rightarrow> set_granted rq1 i)
          in (Returns True, put_queue rid rq2 s1))"

definition LockShared_wait :: "txn_ref \<Rightarrow> RID \<Rightarrow> LockRequestQueue \<times> LockManager \<Rightarrow> bool outcome \<times> LockManager" where
  "LockShared_wait txn rid qs =
     (case qs of (rq, s) \<Rightarrow>
        if state (txns s txn) = ABORTED \<or> \<not> waiting rq then LockShared_granted txn rid qs
        else (Blocks, put_queue rid rq s))"

definition LockShared :: "txn_ref \<Rightarrow> RID \<Rightarrow> LockManager \<Rightarrow> bool outcome \<times> LockManager" where
  "LockShared txn rid s0 =
     (let t = transaction_id (txns s0 txn);
          s = emplace_txn t txn s0
      in if isolation_level (txns s txn) = READ_UNCOMMITTED
         then (Throws t LOCKSHARED_ON_READ_UNCOMMITTED, SetState txn ABORTED s)
         else if state (txns s txn) = SHRINKING
         then (Throws t LOCK_ON_SHRINKING, SetState txn ABORTED s)
         else
           let s1 = (if lock_table s rid = None then put_queue rid LockRequestQueue_new s else s) in
           (case lock_table s1 rid of
              None \<Rightarrow> (Undefined EndIteratorDereference, s1)
            | Some rq0 \<Rightarrow>
                let rq = insert_request rq0 (LockRequest_new t SHARED) in
                if waiting rq then
                  (case Prevent t (rq, s1) of
                     Inl e \<Rightarrow> (Undefined e, put_queue rid rq s1)
                   | Inr qs \<Rightarrow> LockShared_wait txn rid qs)
                else LockShared_granted txn rid (rq, s1)))"

subsection \<open>LockExclusive\<close>

definition LockExclusive_granted :: "txn_ref \<Rightarrow> RID \<Rightarrow> LockRequestQueue \<times> LockManager \<Rightarrow> bool outcome \<times> LockManager" where
  "LockExclusive_granted txn rid qs =
     (case qs of (rq, s) \<Rightarrow>
        let t = transaction_id (txns s txn) in
        if state (txns s txn) = ABORTED then (Throws t DEADLOCK, put_queue rid rq s)
        else
          let s1 = s\<lparr>txns := (txns s)(txn := (txns s txn)\<lparr>exclusive_lock_set := insert rid (exclusive_lock_set (txns s txn))\<rparr>)\<rparr>;
              rq1 = rq\<lparr>waiting := True\<rparr>;
              rq2 = (case find_request rq1 t of None \<Rightarrow> rq1 | Some i \<Rightarrow> set_granted rq1 i)
          in (Returns True, put_queue rid rq2 s1))"

definition LockExclusive_wait :: "txn_ref \<Rightarrow> RID \<Rightarrow> LockRequestQueue \<times> LockManager \<Rightarrow> bool outcome \<times> LockManager" where
  "LockExclusive_wait txn rid qs =
     (case qs of (rq, s) \<Rightarrow>
        if state (txns s txn) = ABORTED \<or> (\<not> waiting rq \<and> refcount rq = 0)
        then LockExclusive_granted txn rid qs
        else (Blocks, put_queue rid rq s))"

definition LockExclusive :: "txn_ref \<Rightarrow> RID \<Rightarrow> LockManager \<Rightarrow> bool outcome \<times> LockManager" where
  "LockExclusive txn rid s0 =
     (let t = transaction_id (txns s0 txn);
          s = emplace_txn t txn s0
      in if state (txns s txn) = SHRINKING
         then (Throws t LOCK_ON_SHRINKING, SetState txn ABORTED s)
         else
           let s1 = (if lock_table s rid = None then put_queue rid LockRequestQueue_new s else s) in
           (case lock_table s1 rid of
              None \<Rightarrow> (Undefined EndIteratorDereference, s1)
            | Some rq0 \<Rightarrow>
                let rq = insert_request rq0 (LockRequest_new t EXCLUSIVE) in
                if waiting rq \<or> refcount rq > 0 then
                  (case Prevent t (rq, s1) of
                     Inl e \<Rightarrow> (Undefined e, put_queue rid rq s1)
                   | Inr qs \<Rightarrow> LockExclusive_wait txn rid qs)
                else LockExclusive_granted txn rid (rq, s1)))"

subsection \<open>LockUpgrade\<close>

definition LockUpgrade_granted :: "txn_ref \<Rightarrow> RID \<Rightarrow> LockRequestQueue \<times> LockManager \<Rightarrow> bool outcome \<times> LockManager" where
  "LockUpgrade_granted txn rid qs =
     (case qs of (rq, s) \<Rightarrow>
        let t = transaction_id (txns s txn) in
        if state (txns s txn) = ABORTED then (Throws t DEADLOCK, put_queue rid rq s)
        else
          let s1 = s\<lparr>txns := (txns s)(txn := (txns s txn)\<lparr>exclusive_lock_set := insert rid (exclusive_lock_set (txns s txn))\<rparr>)\<rparr>;
              rq1 = rq\<lparr>upgrading := False, waiting := True\<rparr>
          in (case find_request rq1 t of
                None \<Rightarrow> (Undefined NullDereference, put_queue rid rq1 s1)
              | Some i \<Rightarrow> (Returns True, put_queue rid (set_granted rq1 i) s1)))"

definition LockUpgrade_wait :: "txn_ref \<Rightarrow> RID \<Rightarrow> LockRequestQueue \<times> LockManager \<Rightarrow> bool outcome \<times> LockManager" where
  "LockUpgrade_wait txn rid qs =
     (case qs of (rq, s) \<Rightarrow>
        if state (txns s txn) = ABORTED \<or> (\<not> waiting rq \<and> refcount rq = 0)
        then LockUpgrade_granted txn rid qs
        else (Blocks, put_queue rid rq s))"

definition LockUpgrade :: "txn_ref \<Rightarrow> RID \<Rightarrow> LockManager \<Rightarrow> bool outcome \<times> LockManager" where
  "LockUpgrade txn rid s =
     (let t = transaction_id (txns s txn) in
      if state (txns s txn) = SHRINKING
      then (Throws t LOCK_ON_SHRINKING, SetState txn ABORTED s)
      else
        (case lock_table s rid of
           None \<Rightarrow> (Undefined EndIteratorDereference, s)
         | Some rq0 \<Rightarrow>
             if upgrading rq0 then (Throws t UPGRADE_CONFLICT, SetState txn ABORTED s)
             else
               let s1 = s\<lparr>txns := (txns s)(txn := (txns s txn)\<lparr>shared_lock_set := shared_lock_set (txns s txn) - {rid}\<rparr>)\<rparr>;
                   rq1 = rq0\<lparr>refcount := refcount rq0 - 1\<rparr>;
                   rq = (case find_request rq1 t of
                           None \<Rightarrow> rq1
                         | Some i \<Rightarrow>
                             rq1\<lparr>request_queue := (request_queue rq1)
                                   [i := (request_queue rq1 ! i)\<lparr>lock_mode := EXCLUSIVE, granted := False\<rparr>]\<rparr>)
               in if waiting rq \<or> refcount rq > 0 then
                    (case Prevent t (rq, s1) of
                       Inl e \<Rightarrow> (Undefined e, put_queue rid rq s1)
                     | Inr (rq2, s2) \<Rightarrow> LockUpgrade_wait txn rid (rq2\<lparr>upgrading := True\<rparr>, s2))
                  else LockUpgrade_granted txn rid (rq, s1)))"

subsection \<open>Unlock\<close>

definition Unlock :: "txn_ref \<Rightarrow> RID \<Rightarrow> LockManager \<Rightarrow> bool outcome \<times> LockManager" where
  "Unlock txn rid s =
     (let t = transaction_id (txns s txn) in
      case lock_table s rid of
        None \<Rightarrow> (Undefined EndIteratorDereference, s)
      | Some rq \<Rightarrow>
          let tx = txns s txn;
              tx1 = tx\<lparr>shared_lock_set := shared_lock_set tx - {rid},
                       exclusive_lock_set := exclusive_lock_set tx - {rid}\<rparr>;
              mode = lock_mode (remove_request rq t);
              tx2 = (if \<not> (mode = SHARED \<and> isolation_level tx1 = READ_COMMITTED) \<and> state tx1 = GROWING
                     then tx1\<lparr>state := SHRINKING\<rparr> else tx1);
              rq1 = (if mode = SHARED
                     then (let rq' = rq\<lparr>refcount := refcount rq - 1\<rparr>
                           in if refcount rq' = 0 then notify_all rq' else rq')
                     else notify_all (rq\<lparr>waiting := False\<rparr>))
          in (Returns True, put_queue rid rq1 (s\<lparr>txns := (txns s)(txn := tx2)\<rparr>)))"

section \<open>Hash table bucket page (src/storage/page/hash\_table\_bucket\_page.cpp)\<close>

text \<open>
  The two bitmaps are arrays of bytes, the slot array holds key-value pairs. The number
  of slots, the constant \<open>BUCKET_ARRAY_SIZE\<close> of the page's header, is not among the
  sources: every function below takes it as its first argument \<open>B\<close>. A zeroed page
  read as a bucket has every byte of both bitmaps and every slot zero; keys and values
  are of types with a zero, the value of \<open>KeyType{}\<close> and \<open>ValueType{}\<close>.
\<close>

record ('k, 'v) HashTableBucketPage =
  occupied :: "nat \<Rightarrow> 8 word"
  readable :: "nat \<Rightarrow> 8 word"
  array :: "nat \<Rightarrow> 'k \<times> 'v"

definition HashTableBucketPage_zero :: "('k::zero, 'v::zero) HashTableBucketPage" where
  "HashTableBucketPage_zero = \<lparr>occupied = (\<lambda>_. 0), readable = (\<lambda>_. 0), array = (\<lambda>_. (0, 0))\<rparr>"

definition IsOccupied :: "nat \<Rightarrow> ('k, 'v) HashTableBucketPage \<Rightarrow> nat \<Rightarrow> bool" where
  "IsOccupied B b bucket_idx =
     (if bucket_idx \<ge> B then False
      else (drop_bit (bucket_idx mod 8) (occupied b (bucket_idx div 8)) AND 1) \<noteq> 0)"

definition SetOccupied :: "nat \<Rightarrow> ('k, 'v) HashTableBucketPage \<Rightarrow> nat \<Rightarrow> ('k, 'v) HashTableBucketPage" where
  "SetOccupied B b bucket_idx =
     (if bucket_idx \<ge> B then b
      else b\<lparr>occupied := (occupied b)
              (bucket_idx div 8 := occupied b (bucket_idx div 8) OR push_bit (bucket_idx mod 8) 1)\<rparr>)"

definition IsReadable :: "nat \<Rightarrow> ('k, 'v) HashTableBucketPage \<Rightarrow> nat \<Rightarrow> bool" where
  "IsReadable B b bucket_idx =
     (if bucket_idx \<ge> B \<or> \<not> IsOccupied B b bucket_idx then False
      else (drop_bit (bucket_idx mod 8) (readable b (bucket_idx div 8)) AND 1) \<noteq> 0)"

definition SetReadable :: "nat \<Rightarrow> ('k, 'v) HashTableBucketPage \<Rightarrow> nat \<Rightarrow> ('k, 'v) HashTableBucketPage" where
  "SetReadable B b bucket_idx =
     (if bucket_idx \<ge> B \<or> \<not> IsOccupied B b bucket_idx then b
      else b\<lparr>readable := (readable b)
              (bucket_idx div 8 := readable b (bucket_idx div 8) OR push_bit (bucket_idx mod 8) 1)\<rparr>)"

definition UnsetReadable :: "nat \<Rightarrow> ('k, 'v) HashTableBucketPage \<Rightarrow> nat \<Rightarrow> ('k, 'v) HashTableBucketPage" where
  "UnsetReadable B b bucket_idx =
     (if bucket_idx \<ge> B then b
      else b\<lparr>readable := (readable b)
              (bucket_idx div 8 := readable b (bucket_idx div 8) AND NOT (push_bit (bucket_idx mod 8) 1))\<rparr>)"

definition KeyAt :: "nat \<Rightarrow> ('k::zero, 'v) HashTableBucketPage \<Rightarrow> nat \<Rightarrow> 'k" where
  "KeyAt B b bucket_idx = (if \<not> IsReadable B b bucket_idx then 0 else fst (array b bucket_idx))"

definition ValueAt :: "nat \<Rightarrow> ('k, 'v::zero) HashTableBucketPage \<Rightarrow> nat \<Rightarrow> 'v" where
  "ValueAt B b bucket_idx = (if \<not> IsReadable B b bucket_idx then 0 else snd (array b bucket_idx))"

definition RemoveAt :: "nat \<Rightarrow> ('k, 'v) HashTableBucketPage \<Rightarrow> nat \<Rightarrow> ('k, 'v) HashTableBucketPage" where
  "RemoveAt B b bucket_idx = (if \<not> IsReadable B b bucket_idx then b else UnsetReadable B b bucket_idx)"

text \<open>
  The loops \<open>for (i = 0; i < BUCKET_ARRAY_SIZE && IsOccupied(i); ++i)\<close>, each as a
  recursion on the slot index. The comparator returns 0 on equal keys.
\<close>

function GetValue_loop ::
  "nat \<Rightarrow> ('k \<Rightarrow> 'k \<Rightarrow> int) \<Rightarrow> ('k::zero, 'v::zero) HashTableBucketPage \<Rightarrow> 'k \<Rightarrow> nat \<Rightarrow> 'v list \<Rightarrow> 'v list" where
  "GetValue_loop B cmp b key i result =
     (if i < B \<and> IsOccupied B b i
      then GetValue_loop B cmp b key (i + 1)
             (if IsReadable B b i \<and> cmp (KeyAt B b i) key = 0 then result @ [ValueAt B b i] else result)
      else result)"
  by pat_completeness auto
termination
  by (relation "measure (\<lambda>(B, cmp, b, key, i, result). B - i)") auto

declare GetValue_loop.simps [simp del]

text \<open>\<open>GetValue\<close> appends to the caller's vector and tells whether it is non-empty.\<close>

definition Bucket_GetValue ::
  "nat \<Rightarrow> ('k \<Rightarrow> 'k \<Rightarrow> int) \<Rightarrow> ('k::zero, 'v::zero) HashTableBucketPage \<Rightarrow> 'k \<Rightarrow> 'v list \<Rightarrow> bool \<times> 'v list" where
  "Bucket_GetValue B cmp b key result =
     (let result' = GetValue_loop B cmp b key 0 result in (result' \<noteq> [], result'))"

function first_unoccupied :: "nat \<Rightarrow> ('k, 'v) HashTableBucketPage \<Rightarrow> nat \<Rightarrow> nat" where
  "first_unoccupied B b i = (if i < B \<and> IsOccupied B b i then first_unoccupied B b (i + 1) else i)"
  by pat_completeness auto
termination
  by (relation "measure (\<lambda>(B, b, i). B - i)") auto

declare first_unoccupied.simps [simp del]

definition Bucket_Insert ::
  "nat \<Rightarrow> ('k \<Rightarrow> 'k \<Rightarrow> int) \<Rightarrow> ('k::zero, 'v::zero) HashTableBucketPage \<Rightarrow> 'k \<Rightarrow> 'v
     \<Rightarrow> bool \<times> ('k, 'v) HashTableBucketPage" where
  "Bucket_Insert B cmp b key val =
     (let found = snd (Bucket_GetValue B cmp b key []) in
      if val \<in> set found then (False, b)
      else
        let i = first_unoccupied B b 0 in
        if i = B then (False, b)
        else (True, SetReadable B (SetOccupied B (b\<lparr>array := (array b)(i := (key, val))\<rparr>) i) i))"

function Remove_loop ::
  "nat \<Rightarrow> ('k \<Rightarrow> 'k \<Rightarrow> int) \<Rightarrow> ('k::zero, 'v::zero) HashTableBucketPage \<Rightarrow> 'k \<Rightarrow> 'v \<Rightarrow> nat
     \<Rightarrow> bool \<times> ('k, 'v) HashTableBucketPage" where
  "Remove_loop B cmp b key val i =
     (if i < B \<and> IsOccupied B b i
      then (if IsReadable B b i \<and> cmp (KeyAt B b i) key = 0 \<and> ValueAt B b i = val
            then (True, UnsetReadable B b i)
            else Remove_loop B cmp b key val (i + 1))
      else (False, b))"
  by pat_completeness auto
termination
  by (relation "measure (\<lambda>(B, cmp, b, key, val, i). B - i)") auto

declare Remove_loop.simps [simp del]

definition Bucket_Remove ::
  "nat \<Rightarrow> ('k \<Rightarrow> 'k \<Rightarrow> int) \<Rightarrow> ('k::zero, 'v::zero) HashTableBucketPage \<Rightarrow> 'k \<Rightarrow> 'v
     \<Rightarrow> bool \<times> ('k, 'v) HashTableBucketPage" where
  "Bucket_Remove B cmp b key val = Remove_loop B cmp b key val 0"

function NumReadable_loop :: "nat \<Rightarrow> ('k, 'v) HashTableBucketPage \<Rightarrow> nat \<Rightarrow> nat \<Rightarrow> nat" where
  "NumReadable_loop B b i cnt =
     (if i < B \<and> IsOccupied B b i
      then NumReadable_loop B b (i + 1) (if IsReadable B b i then cnt + 1 else cnt)
      else cnt)"
  by pat_completeness auto
termination
  by (relation "measure (\<lambda>(B, b, i, cnt). B - i)") auto

declare NumReadable_loop.simps [simp del]

definition NumReadable :: "nat \<Rightarrow> ('k, 'v) HashTableBucketPage \<Rightarrow> nat" where
  "NumReadable B b = NumReadable_loop B b 0 0"

definition IsFull :: "nat \<Rightarrow> ('k, 'v) HashTableBucketPage \<Rightarrow> bool" where
  "IsFull B b = (NumReadable B b = B)"

definition IsEmpty :: "nat \<Rightarrow> ('k, 'v) HashTableBucketPage \<Rightarrow> bool" where
  "IsEmpty B b = (NumReadable B b = 0)"

section \<open>Hash table directory page\<close>

text \<open>
  Modelled from the spec: the directory page (\<open>HashTableDirectoryPage\<close>), whose source
  file is not among the sources. Its fields and operations are the ones the spec's
  section on the directory page lists: the page id, the global depth, and per slot a
  bucket page id and a local depth; a zeroed page read as a directory has all of them
  zero. Slots are indexed by 32-bit unsigned values. The two arrays are functions of the
  slot index; the source's arrays end at slot 511, which no definition below checks.
\<close>

record HashTableDirectoryPage =
  dir_page_id :: page_id_t
  global_depth :: nat
  local_depths :: "nat \<Rightarrow> nat"
  bucket_page_ids :: "nat \<Rightarrow> page_id_t"

definition HashTableDirectoryPage_zero :: HashTableDirectoryPage where
  "HashTableDirectoryPage_zero =
     \<lparr>dir_page_id = 0, global_depth = 0, local_depths = (\<lambda>_. 0), bucket_page_ids = (\<lambda>_. 0)\<rparr>"

definition SetPageId :: "HashTableDirectoryPage \<Rightarrow> page_id_t \<Rightarrow> HashTableDirectoryPage" where
  "SetPageId d p = d\<lparr>dir_page_id := p\<rparr>"

definition GetBucketPageId :: "HashTableDirectoryPage \<Rightarrow> 32 word \<Rightarrow> page_id_t" where
  "GetBucketPageId d bucket_idx = bucket_page_ids d (unat bucket_idx)"

definition SetBucketPageId :: "HashTableDirectoryPage \<Rightarrow> 32 word \<Rightarrow> page_id_t \<Rightarrow> HashTableDirectoryPage" where
  "SetBucketPageId d bucket_idx p = d\<lparr>bucket_page_ids := (bucket_page_ids d)(unat bucket_idx := p)\<rparr>"

definition GetLocalDepth :: "HashTableDirectoryPage \<Rightarrow> 32 word \<Rightarrow> nat" where
  "GetLocalDepth d bucket_idx = local_depths d (unat bucket_idx)"

definition SetLocalDepth :: "HashTableDirectoryPage \<Rightarrow> 32 word \<Rightarrow> nat \<Rightarrow> HashTableDirectoryPage" where
  "SetLocalDepth d bucket_idx n = d\<lparr>local_depths := (local_depths d)(unat bucket_idx := n)\<rparr>"

definition DecrLocalDepth :: "HashTableDirectoryPage \<Rightarrow> 32 word \<Rightarrow> HashTableDirectoryPage" where
  "DecrLocalDepth d bucket_idx =
     d\<lparr>local_depths := (local_depths d)(unat bucket_idx := local_depths d (unat bucket_idx) - 1)\<rparr>"

definition GetGlobalDepth :: "HashTableDirectoryPage \<Rightarrow> nat" where
  "GetGlobalDepth d = global_depth d"

definition IncrGlobalDepth :: "HashTableDirectoryPage \<Rightarrow> HashTableDirectoryPage" where
  "IncrGlobalDepth d = d\<lparr>global_depth := global_depth d + 1\<rparr>"

definition GetGlobalDepthMask :: "HashTableDirectoryPage \<Rightarrow> 32 word" where
  "GetGlobalDepthMask d = push_bit (global_depth d) 1 - 1"

definition GetLocalDepthMask :: "HashTableDirectoryPage \<Rightarrow> 32 word \<Rightarrow> 32 word" where
  "GetLocalDepthMask d bucket_idx = push_bit (GetLocalDepth d bucket_idx) 1 - 1"

text \<open>
  Modelled from the spec: \<open>GetLocalHighBits\<close>. The spec compares a key's masked hash
  with \<open>image_i & LocalDepthMask(i)\<close>: these are the high bits of the image slot.
\<close>

definition GetLocalHighBits :: "HashTableDirectoryPage \<Rightarrow> 32 word \<Rightarrow> 32 word" where
  "GetLocalHighBits d bucket_idx = bucket_idx AND GetLocalDepthMask d bucket_idx"

text \<open>
  Modelled from the spec: \<open>SplitImageIndex(i) = i XOR (1 << (local_depth(i) - 1))\<close>; at
  local depth 0 the shift count is negative, which the source language leaves undefined.
\<close>

definition GetSplitImageIndex :: "HashTableDirectoryPage \<Rightarrow> 32 word \<Rightarrow> fault + 32 word" where
  "GetSplitImageIndex d bucket_idx =
     (if GetLocalDepth d bucket_idx = 0 then Inl UndefinedShift
      else Inr (bucket_idx XOR push_bit (GetLocalDepth d bucket_idx - 1) 1))"

definition Dir_Size :: "HashTableDirectoryPage \<Rightarrow> nat" where
  "Dir_Size d = 2 ^ global_depth d"

text \<open>
  Modelled from the spec: \<open>Grow\<close> increments the global depth and copies, in a loop
  over the new upper half of the slots, the page id and the local depth of the slot
  \<open>2^(global_depth-1)\<close> below; \<open>CanShrink\<close> holds when every slot's local depth is below
  the global depth, and \<open>Shrink\<close> decrements the global depth.
\<close>

definition Grow :: "HashTableDirectoryPage \<Rightarrow> HashTableDirectoryPage" where
  "Grow d =
     (let n = 2 ^ global_depth d in
      fold (\<lambda>j d'. d'\<lparr>bucket_page_ids := (bucket_page_ids d')(j := bucket_page_ids d' (j - n)),
                       local_depths := (local_depths d')(j := local_depths d' (j - n))\<rparr>)
           [n..<2 * n]
           (d\<lparr>global_depth := global_depth d + 1\<rparr>))"

definition CanShrink :: "HashTableDirectoryPage \<Rightarrow> bool" where
  "CanShrink d = list_all (\<lambda>i. local_depths d i < global_depth d) [0..<2 ^ global_depth d]"

definition Shrink :: "HashTableDirectoryPage \<Rightarrow> HashTableDirectoryPage" where
  "Shrink d = d\<lparr>global_depth := global_depth d - 1\<rparr>"

section \<open>Extendible hash table (src/container/hash/extendible\_hash\_table.cpp)\<close>

text \<open>
  What a page of the buffer pool holds for the hash table: zeroes (a fresh page), a
  directory or a bucket. \<open>reinterpret_cast\<close> of a page's bytes reads a zeroed page as
  the zero directory or the zero bucket.
\<close>

datatype ('k, 'v) page_data =
  ZeroPage | DirectoryData HashTableDirectoryPage | BucketData "('k, 'v) HashTableBucketPage"

instantiation page_data :: (type, type) zero
begin
definition zero_page_data :: "('a, 'b) page_data" where
  "zero_page_data = ZeroPage"
instance ..
end

definition as_directory :: "('k, 'v) page_data \<Rightarrow> fault + HashTableDirectoryPage" where
  "as_directory pd =
     (case pd of ZeroPage \<Rightarrow> Inr HashTableDirectoryPage_zero
      | DirectoryData d \<Rightarrow> Inr d
      | BucketData b \<Rightarrow> Inl WrongPageKind)"

definition as_bucket :: "('k::zero, 'v::zero) page_data \<Rightarrow> fault + ('k, 'v) HashTableBucketPage" where
  "as_bucket pd =
     (case pd of ZeroPage \<Rightarrow> Inr HashTableBucketPage_zero
      | BucketData b \<Rightarrow> Inr b
      | DirectoryData d \<Rightarrow> Inl WrongPageKind)"

text \<open>
  The hash table: its buffer pool manager, the id of its directory page (\<open>None\<close> while
  the member was never assigned), the key comparator and the hash function. The slot
  count of a bucket page is a field here, for the constant \<open>BUCKET_ARRAY_SIZE\<close>.
\<close>

record ('k, 'v) ExtendibleHashTable =
  buffer_pool_manager :: "('k, 'v) page_data BufferPoolManagerInstance"
  directory_page_id :: "page_id_t option"
  comparator :: "'k \<Rightarrow> 'k \<Rightarrow> int"
  hash_fn :: "'k \<Rightarrow> 64 word"
  BUCKET_ARRAY_SIZE :: nat

definition bind_fault :: "fault + 'a \<Rightarrow> ('a \<Rightarrow> fault + 'b) \<Rightarrow> fault + 'b" where
  "bind_fault m f = (case m of Inl e \<Rightarrow> Inl e | Inr x \<Rightarrow> f x)"

text \<open>A pointer to a page is the id of its frame; \<open>nullptr\<close> is \<open>None\<close>.\<close>

definition deref :: "frame_id_t option \<Rightarrow> fault + frame_id_t" where
  "deref p = (case p of None \<Rightarrow> Inl NullDereference | Some f \<Rightarrow> Inr f)"

definition directory_at :: "('k, 'v) ExtendibleHashTable \<Rightarrow> frame_id_t \<Rightarrow> fault + HashTableDirectoryPage" where
  "directory_at ht f = as_directory (data (pages (buffer_pool_manager ht) f))"

definition bucket_at ::
  "('k::zero, 'v::zero) ExtendibleHashTable \<Rightarrow> frame_id_t \<Rightarrow> fault + ('k, 'v) HashTableBucketPage" where
  "bucket_at ht f = as_bucket (data (pages (buffer_pool_manager ht) f))"

definition write_data ::
  "frame_id_t \<Rightarrow> ('k, 'v) page_data \<Rightarrow> ('k, 'v) ExtendibleHashTable \<Rightarrow> ('k, 'v) ExtendibleHashTable" where
  "write_data f pd ht =
     ht\<lparr>buffer_pool_manager :=
          (buffer_pool_manager ht)\<lparr>pages :=
            (pages (buffer_pool_manager ht))(f := (pages (buffer_pool_manager ht) f)\<lparr>data := pd\<rparr>)\<rparr>\<rparr>"

definition NewPage ::
  "('k, 'v) ExtendibleHashTable \<Rightarrow> fault + ((page_id_t \<times> frame_id_t) option \<times> ('k, 'v) ExtendibleHashTable)" where
  "NewPage ht =
     (case NewPgImp (buffer_pool_manager ht) of
        Inl e \<Rightarrow> Inl e
      | Inr (r, bpm) \<Rightarrow> Inr (r, ht\<lparr>buffer_pool_manager := bpm\<rparr>))"

definition FetchPage ::
  "page_id_t \<Rightarrow> ('k, 'v) ExtendibleHashTable \<Rightarrow> frame_id_t option \<times> ('k, 'v) ExtendibleHashTable" where
  "FetchPage p ht =
     (case FetchPgImp p (buffer_pool_manager ht) of (r, bpm) \<Rightarrow> (r, ht\<lparr>buffer_pool_manager := bpm\<rparr>))"

definition UnpinPage ::
  "page_id_t \<Rightarrow> bool \<Rightarrow> ('k, 'v) ExtendibleHashTable \<Rightarrow> ('k, 'v) ExtendibleHashTable" where
  "UnpinPage p dirty ht =
     ht\<lparr>buffer_pool_manager := snd (UnpinPgImp p dirty (buffer_pool_manager ht))\<rparr>"

definition Hash :: "('k, 'v) ExtendibleHashTable \<Rightarrow> 'k \<Rightarrow> 32 word" where
  "Hash ht key = ucast (hash_fn ht key)"

definition KeyToDirectoryIndex :: "('k, 'v) ExtendibleHashTable \<Rightarrow> 'k \<Rightarrow> HashTableDirectoryPage \<Rightarrow> 32 word" where
  "KeyToDirectoryIndex ht key dir_page = GetGlobalDepthMask dir_page AND Hash ht key"

definition KeyToPageId :: "('k, 'v) ExtendibleHashTable \<Rightarrow> 'k \<Rightarrow> HashTableDirectoryPage \<Rightarrow> page_id_t" where
  "KeyToPageId ht key dir_page = GetBucketPageId dir_page (KeyToDirectoryIndex ht key dir_page)"

definition FetchDirectoryPage ::
  "('k, 'v) ExtendibleHashTable \<Rightarrow> fault + (frame_id_t option \<times> ('k, 'v) ExtendibleHashTable)" where
  "FetchDirectoryPage ht =
     (case directory_page_id ht of
        None \<Rightarrow> Inl Uninitialised
      | Some p \<Rightarrow> Inr (FetchPage p ht))"

definition FetchBucketPage ::
  "page_id_t \<Rightarrow> ('k, 'v) ExtendibleHashTable \<Rightarrow> frame_id_t option \<times> ('k, 'v) ExtendibleHashTable" where
  "FetchBucketPage bucket_page_id ht = FetchPage bucket_page_id ht"

definition NewBucketPage ::
  "('k, 'v) ExtendibleHashTable \<Rightarrow> fault + ((page_id_t \<times> frame_id_t) option \<times> ('k, 'v) ExtendibleHashTable)" where
  "NewBucketPage ht = NewPage ht"

text \<open>
  The constructor. A page id variable that \<open>NewBucketPage\<close> did not write (the pool had
  no frame) is read uninitialised by the statements that follow.
\<close>

definition ExtendibleHashTable_new ::
  "('k, 'v) page_data BufferPoolManagerInstance \<Rightarrow> ('k \<Rightarrow> 'k \<Rightarrow> int) \<Rightarrow> ('k \<Rightarrow> 64 word) \<Rightarrow> nat
     \<Rightarrow> fault + ('k, 'v) ExtendibleHashTable" where
  "ExtendibleHashTable_new bpm cmp h B =
     (let ht0 = \<lparr>buffer_pool_manager = bpm, directory_page_id = None, comparator = cmp,
                 hash_fn = h, BUCKET_ARRAY_SIZE = B\<rparr> in
      bind_fault (NewPage ht0) (\<lambda>(dir_page, ht1).
        case dir_page of
          None \<Rightarrow> Inr ht1
        | Some (dp, dir_f) \<Rightarrow>
            let ht2 = ht1\<lparr>directory_page_id := Some dp\<rparr> in
            bind_fault (directory_at ht2 dir_f) (\<lambda>dir0.
            let ht3 = write_data dir_f (DirectoryData (SetPageId dir0 dp)) ht2 in
            bind_fault (NewBucketPage ht3) (\<lambda>(b0, ht4).
            case b0 of
              None \<Rightarrow> Inl Uninitialised
            | Some (bucket0_page_id, f0) \<Rightarrow>
                bind_fault (directory_at ht4 dir_f) (\<lambda>dir1.
                let dir2 = SetLocalDepth (SetBucketPageId dir1 0 bucket0_page_id) 0 1;
                    ht5 = write_data dir_f (DirectoryData dir2) ht4 in
                bind_fault (NewBucketPage ht5) (\<lambda>(b1, ht6).
                bind_fault (directory_at ht6 dir_f) (\<lambda>dir3.
                let dir4 = IncrGlobalDepth (SetLocalDepth (SetBucketPageId dir3 1 bucket0_page_id) 1 1);
                    ht7 = write_data dir_f (DirectoryData dir4) ht6;
                    ht8 = UnpinPage dp True ht7;
                    ht9 = UnpinPage bucket0_page_id False ht8
                in case b1 of
                     None \<Rightarrow> Inl Uninitialised
                   | Some (bucket1_page_id, f1) \<Rightarrow> Inr (UnpinPage bucket1_page_id False ht9))))))))"

subsection \<open>Search\<close>

definition GetValue ::
  "('k::zero, 'v::zero) ExtendibleHashTable \<Rightarrow> 'k \<Rightarrow> 'v list
     \<Rightarrow> fault + ((bool \<times> 'v list) \<times> ('k, 'v) ExtendibleHashTable)" where
  "GetValue ht key result =
     bind_fault (FetchDirectoryPage ht) (\<lambda>(dp, ht1).
     bind_fault (deref dp) (\<lambda>dir_f.
     bind_fault (directory_at ht1 dir_f) (\<lambda>dir.
     let bucket_page_id = KeyToPageId ht1 key dir in
     case FetchBucketPage bucket_page_id ht1 of (bp, ht2) \<Rightarrow>
     bind_fault (deref bp) (\<lambda>bucket_f.
     bind_fault (bucket_at ht2 bucket_f) (\<lambda>bucket.
     let r = Bucket_GetValue (BUCKET_ARRAY_SIZE ht2) (comparator ht2) bucket key result in
     case directory_page_id ht2 of
       None \<Rightarrow> Inl Uninitialised
     | Some dpid \<Rightarrow> Inr (r, UnpinPage bucket_page_id False (UnpinPage dpid False ht2)))))))"

subsection \<open>Insertion\<close>

text \<open>
  The key migration of a split: the loop
  \<open>for (i = 0; i < size && bucket->IsReadable(i); ++i)\<close> over the old bucket and the
  image bucket, with the count of migrated pairs. The image page is allocated while the
  old bucket is pinned, so the two pointers name different frames and the loop works on
  the two buckets side by side.
\<close>

function migrate_loop ::
  "nat \<Rightarrow> ('k \<Rightarrow> 'k \<Rightarrow> int) \<Rightarrow> ('k \<Rightarrow> 32 word) \<Rightarrow> 32 word \<Rightarrow> 32 word \<Rightarrow> nat \<Rightarrow> nat
     \<Rightarrow> ('k::zero, 'v::zero) HashTableBucketPage \<times> ('k, 'v) HashTableBucketPage \<times> nat
     \<Rightarrow> ('k, 'v) HashTableBucketPage \<times> ('k, 'v) HashTableBucketPage \<times> nat" where
  "migrate_loop B cmp h local_mask high_bits sz i (bucket, image_bucket, bucket_overflow_count) =
     (if i < sz \<and> IsReadable B bucket i then
        migrate_loop B cmp h local_mask high_bits sz (i + 1)
          (if (h (KeyAt B bucket i) AND local_mask) = high_bits
           then (RemoveAt B bucket i,
                 snd (Bucket_Insert B cmp image_bucket (KeyAt B bucket i) (ValueAt B bucket i)),
                 bucket_overflow_count + 1)
           else (bucket, image_bucket, bucket_overflow_count))
      else (bucket, image_bucket, bucket_overflow_count))"
  by pat_completeness auto
termination
  by (relation "measure (\<lambda>(B, cmp, h, local_mask, high_bits, sz, i, st). sz - i)") auto

declare migrate_loop.simps [simp del]

text \<open>
  One round of the loop of \<open>SplitInsert\<close>: \<open>Some success\<close> when the pair was handed to
  the bucket (\<open>inserted = true\<close>), \<open>None\<close> after a split; with it, whether the directory
  grew in this round.
\<close>

definition SplitInsert_round ::
  "'k \<Rightarrow> 'v \<Rightarrow> frame_id_t \<Rightarrow> ('k::zero, 'v::zero) ExtendibleHashTable
     \<Rightarrow> fault + (bool option \<times> bool \<times> ('k, 'v) ExtendibleHashTable)" where
  "SplitInsert_round key val dir_f ht =
     bind_fault (directory_at ht dir_f) (\<lambda>dir.
     let bucket_idx = KeyToDirectoryIndex ht key dir;
         bucket_page_id = GetBucketPageId dir bucket_idx in
     case FetchBucketPage bucket_page_id ht of (bp, ht1) \<Rightarrow>
     bind_fault (deref bp) (\<lambda>bucket_f.
     bind_fault (bucket_at ht1 bucket_f) (\<lambda>bucket.
     let B = BUCKET_ARRAY_SIZE ht1 in
     if \<not> IsFull B bucket then
       (case Bucket_Insert B (comparator ht1) bucket key val of (success, bucket') \<Rightarrow>
          Inr (Some success, False,
               UnpinPage bucket_page_id False (write_data bucket_f (BucketData bucket') ht1)))
     else
       let grow = (GetLocalDepth dir bucket_idx \<ge> GetGlobalDepth dir);
           dir1 = (if grow then Grow dir else dir) in
       bind_fault (GetSplitImageIndex dir1 bucket_idx) (\<lambda>image_bucket_idx.
       bind_fault (NewBucketPage (write_data dir_f (DirectoryData dir1) ht1)) (\<lambda>(ip, ht2).
       case ip of
         None \<Rightarrow> Inl Uninitialised
       | Some (image_bucket_page_id, image_f) \<Rightarrow>
           let dir2 = SetBucketPageId dir1 image_bucket_idx image_bucket_page_id;
               dir3 = SetLocalDepth dir2 image_bucket_idx (GetLocalDepth dir2 bucket_idx);
               ht3 = write_data dir_f (DirectoryData dir3) ht2;
               local_mask = GetLocalDepthMask dir3 bucket_idx;
               high_bits = GetLocalHighBits dir3 image_bucket_idx;
               sz = NumReadable B bucket in
           bind_fault (bucket_at ht3 image_f) (\<lambda>image_bucket.
           case migrate_loop B (comparator ht3) (Hash ht3) local_mask high_bits sz 0
                  (bucket, image_bucket, 0) of
             (bucket', image_bucket', bucket_overflow_count) \<Rightarrow>
               let ht4 = write_data image_f (BucketData image_bucket')
                           (write_data bucket_f (BucketData bucket') ht3);
                   ht5 = UnpinPage image_bucket_page_id True ht4
               in Inr (None, grow, UnpinPage bucket_page_id (bucket_overflow_count \<noteq> 0) ht5)))))))"

text \<open>
  The loop \<open>while (!inserted)\<close>: it need not end, so its result is an option, \<open>None\<close>
  for a loop that runs forever.
\<close>

partial_function (option) SplitInsert_loop ::
  "'k \<Rightarrow> 'v \<Rightarrow> frame_id_t \<Rightarrow> bool \<Rightarrow> ('k::zero, 'v::zero) ExtendibleHashTable
     \<Rightarrow> (fault + (bool \<times> bool \<times> ('k, 'v) ExtendibleHashTable)) option" where
  "SplitInsert_loop key val dir_f dir_grown ht =
     (case SplitInsert_round key val dir_f ht of
        Inl e \<Rightarrow> Some (Inl e)
      | Inr (Some success, grown, ht1) \<Rightarrow> Some (Inr (success, dir_grown \<or> grown, ht1))
      | Inr (None, grown, ht1) \<Rightarrow> SplitInsert_loop key val dir_f (dir_grown \<or> grown) ht1)"

definition SplitInsert ::
  "('k::zero, 'v::zero) ExtendibleHashTable \<Rightarrow> 'k \<Rightarrow> 'v
     \<Rightarrow> (fault + (bool \<times> ('k, 'v) ExtendibleHashTable)) option" where
  "SplitInsert ht key val =
     (case FetchDirectoryPage ht of
        Inl e \<Rightarrow> Some (Inl e)
      | Inr (dp, ht1) \<Rightarrow>
          (case deref dp of
             Inl e \<Rightarrow> Some (Inl e)
           | Inr dir_f \<Rightarrow>
               (case SplitInsert_loop key val dir_f False ht1 of
                  None \<Rightarrow> None
                | Some (Inl e) \<Rightarrow> Some (Inl e)
                | Some (Inr (success, dir_grown, ht2)) \<Rightarrow>
                    (case directory_page_id ht2 of
                       None \<Rightarrow> Some (Inl Uninitialised)
                     | Some dpid \<Rightarrow> Some (Inr (success, UnpinPage dpid dir_grown ht2))))))"

definition Insert ::
  "('k::zero, 'v::zero) ExtendibleHashTable \<Rightarrow> 'k \<Rightarrow> 'v
     \<Rightarrow> (fault + (bool \<times> ('k, 'v) ExtendibleHashTable)) option" where
  "Insert ht key val =
     (case
        bind_fault (FetchDirectoryPage ht) (\<lambda>(dp, ht1).
        bind_fault (deref dp) (\<lambda>dir_f.
        bind_fault (directory_at ht1 dir_f) (\<lambda>dir.
        let bucket_idx = KeyToDirectoryIndex ht1 key dir;
            bucket_page_id = GetBucketPageId dir bucket_idx in
        case FetchBucketPage bucket_page_id ht1 of (bp, ht2) \<Rightarrow>
        bind_fault (deref bp) (\<lambda>bucket_f.
        bind_fault (bucket_at ht2 bucket_f) (\<lambda>bucket.
        case directory_page_id ht2 of
          None \<Rightarrow> Inl Uninitialised
        | Some dpid \<Rightarrow>
            if \<not> IsFull (BUCKET_ARRAY_SIZE ht2) bucket then
              (case Bucket_Insert (BUCKET_ARRAY_SIZE ht2) (comparator ht2) bucket key val of
                 (success, bucket') \<Rightarrow>
                   Inr (Inl (success,
                      UnpinPage bucket_page_id success
                        (UnpinPage dpid False (write_data bucket_f (BucketData bucket') ht2)))))
            else Inr (Inr (UnpinPage bucket_page_id False (UnpinPage dpid False ht2)))))))) of
        Inl e \<Rightarrow> Some (Inl e)
      | Inr (Inl done) \<Rightarrow> Some (Inr done)
      | Inr (Inr ht3) \<Rightarrow> SplitInsert ht3 key val)"

subsection \<open>Remove and merge\<close>

text \<open>
  The inner loop of \<open>Merge\<close>, over all slots \<open>j\<close> of the directory: a slot other than the
  bucket's and the image's whose page is the bucket's or the image's gets the bucket
  slot's local depth and the image's page.
\<close>

function Merge_rebind ::
  "32 word \<Rightarrow> 32 word \<Rightarrow> page_id_t \<Rightarrow> page_id_t \<Rightarrow> nat \<Rightarrow> HashTableDirectoryPage
     \<Rightarrow> HashTableDirectoryPage" where
  "Merge_rebind bucket_idx image_bucket_idx bucket_page_id image_bucket_page_id j d =
     (if j < Dir_Size d then
        Merge_rebind bucket_idx image_bucket_idx bucket_page_id image_bucket_page_id (j + 1)
          (if of_nat j = bucket_idx \<or> of_nat j = image_bucket_idx then d
           else if GetBucketPageId d (of_nat j) = bucket_page_id
                   \<or> GetBucketPageId d (of_nat j) = image_bucket_page_id
           then SetBucketPageId (SetLocalDepth d (of_nat j) (GetLocalDepth d bucket_idx))
                  (of_nat j) image_bucket_page_id
           else d)
      else d)"
  by pat_completeness auto
termination
  by (relation "measure (\<lambda>(bi, ii, bp, ip, j, d). Dir_Size d - j)")
     (auto simp add: Dir_Size_def SetBucketPageId_def SetLocalDepth_def)

declare Merge_rebind.simps [simp del]

text \<open>
  One round of the outer loop of \<open>Merge\<close>, for the slot \<open>bucket_idx\<close>; the result tells
  whether the directory shrank in this round. \<open>bucket->IsEmpty()\<close> is only evaluated
  when the local depth is above 1.
\<close>

definition Merge_round ::
  "frame_id_t \<Rightarrow> 32 word \<Rightarrow> ('k::zero, 'v::zero) ExtendibleHashTable
     \<Rightarrow> fault + (bool \<times> ('k, 'v) ExtendibleHashTable)" where
  "Merge_round dir_f bucket_idx ht =
     bind_fault (directory_at ht dir_f) (\<lambda>dir0.
     let bucket_page_id = GetBucketPageId dir0 bucket_idx in
     case FetchBucketPage bucket_page_id ht of (bp, ht1) \<Rightarrow>
     bind_fault (directory_at ht1 dir_f) (\<lambda>dir.
     let bucket_local_depth = GetLocalDepth dir bucket_idx in
     bind_fault (GetSplitImageIndex dir bucket_idx) (\<lambda>image_bucket_idx.
     let image_bucket_page_id = GetBucketPageId dir image_bucket_idx in
     bind_fault
       (if bucket_local_depth > 1 then
          bind_fault (deref bp) (\<lambda>bucket_f.
          bind_fault (bucket_at ht1 bucket_f) (\<lambda>bucket.
          Inr (IsEmpty (BUCKET_ARRAY_SIZE ht1) bucket
               \<and> GetLocalDepth dir image_bucket_idx = bucket_local_depth)))
        else Inr False)
       (\<lambda>merge.
     let dir1 = (if merge then
                   let d1 = DecrLocalDepth (DecrLocalDepth dir bucket_idx) image_bucket_idx;
                       d2 = SetBucketPageId d1 bucket_idx (GetBucketPageId d1 image_bucket_idx)
                   in Merge_rebind bucket_idx image_bucket_idx bucket_page_id image_bucket_page_id 0 d2
                 else dir);
         shrink = CanShrink dir1;
         dir2 = (if shrink then Shrink dir1 else dir1)
     in Inr (shrink, UnpinPage bucket_page_id False (write_data dir_f (DirectoryData dir2) ht1))))))"

text \<open>
  The outer loop \<open>for (bucket_idx = 0; bucket_idx < dir->Size(); ++bucket_idx)\<close>; the
  bound is read from the directory's frame in every round. As for \<open>SplitInsert_loop\<close>,
  \<open>None\<close> stands for a loop that does not end.
\<close>

partial_function (option) Merge_loop ::
  "frame_id_t \<Rightarrow> nat \<Rightarrow> bool \<Rightarrow> ('k::zero, 'v::zero) ExtendibleHashTable
     \<Rightarrow> (fault + (bool \<times> ('k, 'v) ExtendibleHashTable)) option" where
  "Merge_loop dir_f bucket_idx dir_shrunken ht =
     (case directory_at ht dir_f of
        Inl e \<Rightarrow> Some (Inl e)
      | Inr dir \<Rightarrow>
          if bucket_idx < Dir_Size dir then
            (case Merge_round dir_f (of_nat bucket_idx) ht of
               Inl e \<Rightarrow> Some (Inl e)
             | Inr (shrunk, ht1) \<Rightarrow> Merge_loop dir_f (bucket_idx + 1) (dir_shrunken \<or> shrunk) ht1)
          else Some (Inr (dir_shrunken, ht)))"

definition Merge ::
  "('k::zero, 'v::zero) ExtendibleHashTable \<Rightarrow> (fault + ('k, 'v) ExtendibleHashTable) option" where
  "Merge ht =
     (case FetchDirectoryPage ht of
        Inl e \<Rightarrow> Some (Inl e)
      | Inr (dp, ht1) \<Rightarrow>
          (case deref dp of
             Inl e \<Rightarrow> Some (Inl e)
           | Inr dir_f \<Rightarrow>
               (case Merge_loop dir_f 0 False ht1 of
                  None \<Rightarrow> None
                | Some (Inl e) \<Rightarrow> Some (Inl e)
                | Some (Inr (dir_shrunken, ht2)) \<Rightarrow>
                    (case directory_page_id ht2 of
                       None \<Rightarrow> Some (Inl Uninitialised)
                     | Some dpid \<Rightarrow> Some (Inr (UnpinPage dpid dir_shrunken ht2))))))"

definition Remove ::
  "('k::zero, 'v::zero) ExtendibleHashTable \<Rightarrow> 'k \<Rightarrow> 'v
     \<Rightarrow> (fault + (bool \<times> ('k, 'v) ExtendibleHashTable)) option" where
  "Remove ht key val =
     (case
        bind_fault (FetchDirectoryPage ht) (\<lambda>(dp, ht1).
        bind_fault (deref dp) (\<lambda>dir_f.
        bind_fault (directory_at ht1 dir_f) (\<lambda>dir.
        let bucket_page_id = KeyToPageId ht1 key dir in
        case FetchBucketPage bucket_page_id ht1 of (bp, ht2) \<Rightarrow>
        bind_fault (deref bp) (\<lambda>bucket_f.
        bind_fault (bucket_at ht2 bucket_f) (\<lambda>bucket.
        case directory_page_id ht2 of
          None \<Rightarrow> Inl Uninitialised
        | Some dpid \<Rightarrow>
            (case Bucket_Remove (BUCKET_ARRAY_SIZE ht2) (comparator ht2) bucket key val of
               (success, bucket') \<Rightarrow>
                 Inr (success, IsEmpty (BUCKET_ARRAY_SIZE ht2) bucket',
                      UnpinPage bucket_page_id success
                        (UnpinPage dpid False (write_data bucket_f (BucketData bucket') ht2))))))))) of
        Inl e \<Rightarrow> Some (Inl e)
      | Inr (success, emptied, ht3) \<Rightarrow>
          if success \<and> emptied then
            (case Merge ht3 of
               None \<Rightarrow> None
             | Some (Inl e) \<Rightarrow> Some (Inl e)
             | Some (Inr ht4) \<Rightarrow> Some (Inr (success, ht4)))
          else Some (Inr (success, ht3)))"

subsection \<open>The migration pass as the spec words it\<close>

text \<open>
  Following the spec's words, not the source: "for each \<open>j \<in> [0,B)\<close>, if
  \<open>(hash32(key_j) & LocalDepthMask(i)) == (image_i & LocalDepthMask(i))\<close> then move KV to
  image bucket and clear the old slot", over every live slot and with no exit before
  slot \<open>B\<close>. It is compared with \<open>migrate_loop\<close>, the loop of the source.
\<close>

definition migrate_slot ::
  "nat \<Rightarrow> ('k \<Rightarrow> 'k \<Rightarrow> int) \<Rightarrow> ('k \<Rightarrow> 32 word) \<Rightarrow> 32 word \<Rightarrow> 32 word \<Rightarrow> nat
     \<Rightarrow> ('k::zero, 'v::zero) HashTableBucketPage \<times> ('k, 'v) HashTableBucketPage \<times> nat
     \<Rightarrow> ('k, 'v) HashTableBucketPage \<times> ('k, 'v) HashTableBucketPage \<times> nat" where
  "migrate_slot B cmp h local_mask high_bits j st =
     (case st of (bucket, image_bucket, n) \<Rightarrow>
        if IsReadable B bucket j \<and> (h (KeyAt B bucket j) AND local_mask) = high_bits
        then (RemoveAt B bucket j,
              snd (Bucket_Insert B cmp image_bucket (KeyAt B bucket j) (ValueAt B bucket j)),
              n + 1)
        else (bucket, image_bucket, n))"

definition migrate_every_slot ::
  "nat \<Rightarrow> ('k \<Rightarrow> 'k \<Rightarrow> int) \<Rightarrow> ('k \<Rightarrow> 32 word) \<Rightarrow> 32 word \<Rightarrow> 32 word
     \<Rightarrow> ('k::zero, 'v::zero) HashTableBucketPage \<times> ('k, 'v) HashTableBucketPage \<times> nat
     \<Rightarrow> ('k, 'v) HashTableBucketPage \<times> ('k, 'v) HashTableBucketPage \<times> nat" where
  "migrate_every_slot B cmp h local_mask high_bits st =
     fold (migrate_slot B cmp h local_mask high_bits) [0..<B] st"

section \<open>Scenarios\<close>

subsection \<open>Buffer pool scenarios\<close>

text \<open>
  A pool of three frames over pages of one number each, as the constructor builds it
  (one instance, index 0), and the same pool after one \<open>NewPgImp\<close>: page 0 sits in
  frame 0, pinned once.
\<close>

definition pool3 :: "nat BufferPoolManagerInstance" where
  "pool3 = projr (BufferPoolManagerInstance_new 3 1 0)"

definition pool3_page0_pinned :: "nat BufferPoolManagerInstance" where
  "pool3_page0_pinned = snd (projr (NewPgImp pool3))"

definition pool3_page0_unpinned :: "nat BufferPoolManagerInstance" where
  "pool3_page0_unpinned = snd (UnpinPgImp 0 False pool3_page0_pinned)"

subsection \<open>Lock manager scenarios\<close>

text \<open>
  A fresh transaction (GROWING, no locks) and a fresh lock manager over a store of
  transaction objects. In the scenarios the transaction object at address \<open>a\<close> has
  id \<open>a\<close>, and \<open>r\<close> is one row id.
\<close>

definition Transaction_new :: "txn_id_t \<Rightarrow> IsolationLevel \<Rightarrow> Transaction" where
  "Transaction_new t lvl =
     \<lparr>transaction_id = t, state = GROWING, isolation_level = lvl,
      shared_lock_set = {}, exclusive_lock_set = {}\<rparr>"

definition LockManager_new :: "(txn_ref \<Rightarrow> Transaction) \<Rightarrow> LockManager" where
  "LockManager_new ts = \<lparr>txns = ts, id_txn = Map.empty, lock_table = Map.empty\<rparr>"

definition txns_of :: "IsolationLevel \<Rightarrow> txn_ref \<Rightarrow> Transaction" where
  "txns_of lvl a = Transaction_new (int a) lvl"

definition rid_r :: RID where
  "rid_r = (0, 0)"

definition rid_r2 :: RID where
  "rid_r2 = (0, 1)"

text \<open>
  Transaction 0 after \<open>LockShared\<close> on two rows, and the queue of the first row then;
  the same transaction after it unlocked the first row; and a transaction that took and
  released an exclusive lock.
\<close>

definition two_shared_locks :: "IsolationLevel \<Rightarrow> LockManager" where
  "two_shared_locks lvl =
     snd (LockShared 0 rid_r2 (snd (LockShared 0 rid_r (LockManager_new (txns_of lvl)))))"

definition one_shared_queue :: LockRequestQueue where
  "one_shared_queue =
     \<lparr>request_queue = [\<lparr>txn_id = 0, lock_mode = SHARED, granted = True\<rparr>],
      refcount = 1, waiting = False, upgrading = False, notified = 0\<rparr>"

definition after_unlock :: "IsolationLevel \<Rightarrow> LockManager" where
  "after_unlock lvl = snd (Unlock 0 rid_r (two_shared_locks lvl))"

definition after_exclusive_unlock :: "IsolationLevel \<Rightarrow> LockManager" where
  "after_exclusive_unlock lvl =
     snd (Unlock 0 rid_r (snd (LockExclusive 0 rid_r (LockManager_new (txns_of lvl)))))"

subsection \<open>Hash table scenarios\<close>

text \<open>
  Modelled from the spec: \<open>IntComparator\<close>, whose header is not among the sources,
  is the key comparator of the integer instance: negative, zero or positive as the
  first key is less than, equal to or greater than the second. The scenarios use integer
  keys and values and, for the hash function the table is constructed with, one that
  returns the key's own bits. \<open>directory_of\<close> reads the directory of a table from its
  frame in the pool, without pinning it.
\<close>

definition IntComparator :: "int \<Rightarrow> int \<Rightarrow> int" where
  "IntComparator a b = (if a < b then - 1 else if a > b then 1 else 0)"

definition hash_bits :: "int \<Rightarrow> 64 word" where
  "hash_bits k = word_of_int k"

definition directory_of :: "('k, 'v) ExtendibleHashTable \<Rightarrow> HashTableDirectoryPage option" where
  "directory_of ht =
     (case directory_page_id ht of
        None \<Rightarrow> None
      | Some dp \<Rightarrow>
          (case page_table (buffer_pool_manager ht) dp of
             None \<Rightarrow> None
           | Some f \<Rightarrow>
               (case directory_at ht f of Inl e \<Rightarrow> None | Inr d \<Rightarrow> Some d)))"

definition fresh_table :: "nat \<Rightarrow> nat \<Rightarrow> fault + (int, int) ExtendibleHashTable" where
  "fresh_table psize B =
     bind_fault (BufferPoolManagerInstance_new psize 1 0)
       (\<lambda>bpm. ExtendibleHashTable_new bpm IntComparator hash_bits B)"

text \<open>
  A table of two-slot buckets on the way into a split: after \<open>Insert(3, 30)\<close> and
  \<open>Insert(2, 20)\<close> filled the one bucket, \<open>SplitInsert\<close> has fetched the directory page
  (frame 0). \<open>SplitInsert\<close> then runs its loop body for the pair (4, 40): it fetches
  the bucket (frame 1), finds it full, and splits it.
\<close>

definition table_before_split :: "(int, int) ExtendibleHashTable" where
  "table_before_split =
     snd (projr (FetchDirectoryPage
       (snd (projr (the (Insert
          (snd (projr (the (Insert (projr (fresh_table 10 2)) 3 30)))) 2 20))))))"

definition directory_before_split :: HashTableDirectoryPage where
  "directory_before_split = projr (directory_at table_before_split 0)"

definition table_bucket_fetched :: "(int, int) ExtendibleHashTable" where
  "table_bucket_fetched =
     snd (FetchBucketPage (GetBucketPageId directory_before_split 0) table_before_split)"

definition bucket_before_split :: "(int, int) HashTableBucketPage" where
  "bucket_before_split = projr (bucket_at table_bucket_fetched 1)"

definition table_after_split :: "(int, int) ExtendibleHashTable" where
  "table_after_split = snd (snd (projr (SplitInsert_round 4 40 0 table_before_split)))"

definition directory_after_split :: HashTableDirectoryPage where
  "directory_after_split = projr (directory_at table_after_split 0)"

section \<open>Evaluation rules\<close>

text \<open>
  The definitions of each component, collected for the proofs that run the model on a
  concrete input; the congruence rule makes the simplifier evaluate the first argument
  of \<open>bind_fault\<close> before it looks at the continuation.
\<close>

lemmas bpm_defs = BufferPoolManagerInstance_new_def NewPgImp_def FetchPgImp_def UnpinPgImp_def
  DeletePgImp_def FlushPgImp_def FlushPageReally_def FindFreshPage_def FindPage_def AllocatePage_def
  ValidatePageId_def WritePage_def ReadPage_def DeallocatePage_def Page_new_def INVALID_PAGE_ID_def
  LRUReplacer_new_def Victim_def Pin_def Unpin_def

lemmas bpm_scenario_defs = pool3_def pool3_page0_pinned_def pool3_page0_unpinned_def

lemmas lm_defs = LockShared_def LockExclusive_def LockUpgrade_def Unlock_def
  LockShared_wait_def LockShared_granted_def LockExclusive_wait_def LockExclusive_granted_def
  LockUpgrade_wait_def LockUpgrade_granted_def Prevent_def put_queue_def set_granted_def
  find_request_def remove_request_def insert_request_def notify_all_def LockRequest_new_def
  LockRequestQueue_new_def SetState_def emplace_txn_def Transaction_new_def LockManager_new_def
  txns_of_def rid_r_def rid_r2_def INVALID_TXN_ID_def two_shared_locks_def one_shared_queue_def
  after_unlock_def after_exclusive_unlock_def

lemmas bucket_defs = IsOccupied_def SetOccupied_def IsReadable_def SetReadable_def UnsetReadable_def
  KeyAt_def ValueAt_def RemoveAt_def Bucket_GetValue_def Bucket_Insert_def Bucket_Remove_def
  NumReadable_def IsFull_def IsEmpty_def HashTableBucketPage_zero_def
  GetValue_loop.simps first_unoccupied.simps Remove_loop.simps NumReadable_loop.simps

lemmas dir_defs = HashTableDirectoryPage_zero_def SetPageId_def GetBucketPageId_def SetBucketPageId_def
  GetLocalDepth_def SetLocalDepth_def DecrLocalDepth_def GetGlobalDepth_def IncrGlobalDepth_def
  GetGlobalDepthMask_def GetLocalDepthMask_def GetLocalHighBits_def GetSplitImageIndex_def
  Dir_Size_def Grow_def CanShrink_def Shrink_def

lemmas ht_defs = as_directory_def as_bucket_def bind_fault_def deref_def directory_at_def bucket_at_def
  write_data_def NewPage_def FetchPage_def UnpinPage_def Hash_def KeyToDirectoryIndex_def KeyToPageId_def
  FetchDirectoryPage_def FetchBucketPage_def NewBucketPage_def ExtendibleHashTable_new_def
  GetValue_def SplitInsert_round_def SplitInsert_def Insert_def migrate_loop.simps SplitInsert_loop.simps
  Merge_rebind.simps Merge_round_def Merge_loop.simps Merge_def Remove_def
  zero_page_data_def IntComparator_def hash_bits_def directory_of_def fresh_table_def

lemmas split_defs = table_before_split_def directory_before_split_def table_bucket_fetched_def
  bucket_before_split_def table_after_split_def directory_after_split_def

lemma bind_fault_weak_cong: "m = m' \<Longrightarrow> bind_fault m f = bind_fault m' f"
  by simp

section \<open>Buffer pool manager: properties\<close>

lemma Unpin_member:
  assumes "0 < lru_size r" and "set (lru_list r) = lru_map r"
  shows "f \<in> set (lru_list (Unpin r f))"
proof (cases "f \<in> lru_map r")
  case True
  with assms show ?thesis by (simp add: Unpin_def)
next
  case False
  with assms have nf: "f \<notin> set (lru_list r)" by simp
  show ?thesis
  proof (cases "lru_list r")
    case Nil
    with assms False show ?thesis by (simp add: Unpin_def Let_def Victim_def)
  next
    case (Cons h t)
    with nf have "h \<noteq> f" by auto
    with Cons False show ?thesis by (simp add: Unpin_def Let_def Victim_def)
  qed
qed

lemma pool3_eval:
  "BufferPoolManagerInstance_new 3 1 0 = Inr pool3"
  "fst (projr (NewPgImp pool3)) = Some (0, 0)"
  "FindPage pool3_page0_pinned 0 = 0"
  "pin_count (pages pool3_page0_pinned 0) = 1"
  "is_dirty (pages pool3_page0_pinned 0) = False"
  "lru_size (replacer pool3_page0_pinned) = 3"
  "lru_list (replacer pool3_page0_pinned) = []"
  "lru_map (replacer pool3_page0_pinned) = {}"
  "data (pages pool3_page0_pinned 0) = 0"
  "disk_writes pool3_page0_pinned = []"
  "deallocated pool3_page0_pinned = []"
  "free_list pool3_page0_pinned = [1, 2]"
  "page_table pool3_page0_pinned 0 = Some 0"
  by (simp_all add: bpm_defs bpm_scenario_defs Let_def upt_rec)

text \<open>
  Claim C9. \<open>DeletePgImp\<close> calls \<open>DeallocatePage\<close> first, whatever the page table says;
  when the page is resident with a positive pin count it then returns false, and the
  deallocation is the only change: page table, frames and free list are as before.
\<close>

theorem DeletePgImp_pinned_deallocates_only:
  assumes "FindPage s p \<noteq> INVALID_PAGE_ID" and "pin_count (pages s (FindPage s p)) > 0"
  shows "deallocated (snd (DeletePgImp p s')) = p # deallocated s'
       \<and> DeletePgImp p s = (False, s\<lparr>deallocated := p # deallocated s\<rparr>)
       \<and> page_table (snd (DeletePgImp p s)) = page_table s
       \<and> pages (snd (DeletePgImp p s)) = pages s
       \<and> free_list (snd (DeletePgImp p s)) = free_list s
       \<and> replacer (snd (DeletePgImp p s)) = replacer s"
  using assms by (simp add: DeletePgImp_def DeallocatePage_def FindPage_def Let_def)

theorem DeletePgImp_pinned_deallocates_only_witness:
  "FindPage pool3_page0_pinned 0 \<noteq> INVALID_PAGE_ID
   \<and> pin_count (pages pool3_page0_pinned (FindPage pool3_page0_pinned 0)) > 0
   \<and> DeletePgImp 0 pool3_page0_pinned = (False, pool3_page0_pinned\<lparr>deallocated := [0]\<rparr>)
   \<and> page_table (snd (DeletePgImp 0 pool3_page0_pinned)) 0 = Some 0
   \<and> free_list (snd (DeletePgImp 0 pool3_page0_pinned)) = [1, 2]"
  using DeletePgImp_pinned_deallocates_only
          [where s = pool3_page0_pinned and p = 0 and s' = pool3_page0_pinned]
  by (simp add: pool3_eval INVALID_PAGE_ID_def)

text \<open>
  Claim C10. An \<open>UnpinPgImp\<close> that takes the pin count from 1 to 0 puts the frame into
  the replacer and, when the frame is dirty (it was, or the caller says so), writes the
  page to disk at once; the dirty flag is still set after that write. A later
  \<open>FlushPgImp\<close> clears it, and so does the eviction of the frame as the replacer's victim.
\<close>

theorem UnpinPgImp_to_zero_writes_and_stays_dirty:
  assumes res: "FindPage s p = f" "f \<noteq> INVALID_PAGE_ID"
      and pin: "pin_count (pages s f) = 1"
      and rep: "0 < lru_size (replacer s)" "set (lru_list (replacer s)) = lru_map (replacer s)"
      and s': "s' = snd (UnpinPgImp p dirty s)"
      and d: "d = (is_dirty (pages s f) \<or> dirty)"
  shows "fst (UnpinPgImp p dirty s)
       \<and> pin_count (pages s' f) = 0
       \<and> f \<in> set (lru_list (replacer s'))
       \<and> is_dirty (pages s' f) = d
       \<and> data (pages s' f) = data (pages s f)
       \<and> (if d then disk s' p = Some (data (pages s f)) \<and> disk_writes s' = p # disk_writes s
           else disk s' = disk s \<and> disk_writes s' = disk_writes s)
       \<and> fst (FlushPgImp p s') \<and> \<not> is_dirty (pages (snd (FlushPgImp p s')) f)
       \<and> (free_list s' = [] \<and> hd (lru_list (replacer s')) = f \<longrightarrow>
            fst (FindFreshPage s') = f \<and> \<not> is_dirty (pages (snd (FindFreshPage s')) f))"
proof -
  have mem: "f \<in> set (lru_list (Unpin (replacer s) f))"
    using rep by (rule Unpin_member)
  have main: "fst (UnpinPgImp p dirty s)
       \<and> pin_count (pages s' f) = 0
       \<and> f \<in> set (lru_list (replacer s'))
       \<and> is_dirty (pages s' f) = d
       \<and> data (pages s' f) = data (pages s f)
       \<and> (if d then disk s' p = Some (data (pages s f)) \<and> disk_writes s' = p # disk_writes s
           else disk s' = disk s \<and> disk_writes s' = disk_writes s)
       \<and> FindPage s' p = f"
    using res pin s' d mem
    by (auto simp add: UnpinPgImp_def FlushPageReally_def FindPage_def WritePage_def Let_def
             split: option.splits)
  have flush: "fst (FlushPgImp p s') \<and> \<not> is_dirty (pages (snd (FlushPgImp p s')) f)"
    using main res(2)
    by (auto simp add: FlushPgImp_def FlushPageReally_def WritePage_def Let_def)
  have evict: "fst (FindFreshPage s') = f \<and> \<not> is_dirty (pages (snd (FindFreshPage s')) f)"
    if fl: "free_list s' = []" and hd: "hd (lru_list (replacer s')) = f"
  proof -
    from main obtain t where "lru_list (replacer s') = f # t"
      using hd by (cases "lru_list (replacer s')") auto
    with fl show ?thesis
      by (simp add: FindFreshPage_def Victim_def Let_def)
  qed
  from main flush evict show ?thesis by simp
qed

theorem UnpinPgImp_to_zero_writes_and_stays_dirty_witness:
  "FindPage pool3_page0_pinned 0 = 0 \<and> (0::int) \<noteq> INVALID_PAGE_ID
   \<and> pin_count (pages pool3_page0_pinned 0) = 1
   \<and> 0 < lru_size (replacer pool3_page0_pinned)
   \<and> set (lru_list (replacer pool3_page0_pinned)) = lru_map (replacer pool3_page0_pinned)
   \<and> fst (UnpinPgImp 0 True pool3_page0_pinned)
   \<and> pin_count (pages (snd (UnpinPgImp 0 True pool3_page0_pinned)) 0) = 0
   \<and> 0 \<in> set (lru_list (replacer (snd (UnpinPgImp 0 True pool3_page0_pinned))))
   \<and> is_dirty (pages (snd (UnpinPgImp 0 True pool3_page0_pinned)) 0)
   \<and> disk (snd (UnpinPgImp 0 True pool3_page0_pinned)) 0 = Some 0
   \<and> disk_writes (snd (UnpinPgImp 0 True pool3_page0_pinned)) = [0]
   \<and> \<not> is_dirty (pages (snd (FlushPgImp 0 (snd (UnpinPgImp 0 True pool3_page0_pinned)))) 0)"
  using UnpinPgImp_to_zero_writes_and_stays_dirty
          [of pool3_page0_pinned 0 0 "snd (UnpinPgImp 0 True pool3_page0_pinned)" True True]
  by (simp add: pool3_eval INVALID_PAGE_ID_def)

text \<open>
  Claim C5. The claim is that a \<open>FetchPage\<close> that finds the page resident leaves the
  frame's dirty flag as it was. The source sets the flag on every hit: page 0 of a
  three-frame pool, created and unpinned clean, is clean before the fetch and dirty
  after it, and the next unpin, again with \<open>is_dirty = false\<close>, writes it to disk.
\<close>

theorem FetchPgImp_hit_sets_dirty:
  "is_dirty (pages pool3_page0_unpinned 0) = False
   \<and> disk_writes pool3_page0_unpinned = []
   \<and> fst (FetchPgImp 0 pool3_page0_unpinned) = Some 0
   \<and> is_dirty (pages (snd (FetchPgImp 0 pool3_page0_unpinned)) 0) = True
   \<and> pin_count (pages (snd (FetchPgImp 0 pool3_page0_unpinned)) 0) = 1
   \<and> disk_writes (snd (UnpinPgImp 0 False (snd (FetchPgImp 0 pool3_page0_unpinned)))) = [0]"
  by (simp add: bpm_defs bpm_scenario_defs Let_def upt_rec insert_Diff_if)

text \<open>
  The replacer in scenario S2 of the spec, capacity 4: after \<open>Unpin\<close> of 1, 2, 3, 4 the
  victims are 1 and 2; after \<open>Unpin(3)\<close>, \<open>Pin(3)\<close>, \<open>Unpin(3)\<close> they are 4 and then 3,
  and the replacer is empty.
\<close>

theorem replacer_scenario_S2:
  "(case Victim (Unpin (Unpin (Unpin (Unpin (LRUReplacer_new 4) 1) 2) 3) 4) of (v1, r1) \<Rightarrow>
    case Victim r1 of (v2, r2) \<Rightarrow>
    case Victim (Unpin (Pin (Unpin r2 3) 3) 3) of (v3, r3) \<Rightarrow>
    case Victim r3 of (v4, r4) \<Rightarrow>
      (v1, v2, v3, v4, Size r4, fst (Victim r4)))
   = (Some 1, Some 2, Some 4, Some 3, 0, None)"
  by (simp add: LRUReplacer_new_def Victim_def Unpin_def Pin_def Size_def Let_def insert_Diff_if)

text \<open>
  Sharding: a page id that \<open>NewPgImp\<close> returns is congruent to the instance index modulo
  the number of instances, in whatever state the call was made (the assertion of
  \<open>AllocatePage\<close> stops the call otherwise).
\<close>

theorem NewPgImp_page_id_of_this_instance:
  "NewPgImp s = Inr (Some (p, f), s') \<Longrightarrow> p mod int (num_instances s) = int (instance_index s)"
  by (auto simp add: NewPgImp_def AllocatePage_def ValidatePageId_def FindFreshPage_def Victim_def
                     FlushPageReally_def WritePage_def Let_def
           split: prod.splits if_splits sum.splits list.splits option.splits)

theorem NewPgImp_page_id_of_this_instance_witness:
  "NewPgImp pool3 = Inr (Some (0, 0), pool3_page0_pinned)
   \<and> (0::int) mod int (num_instances pool3) = int (instance_index pool3)"
  using NewPgImp_page_id_of_this_instance [of pool3 0 0 pool3_page0_pinned]
  by (simp add: bpm_defs bpm_scenario_defs Let_def upt_rec)

text \<open>
  The buffer pool in scenario S1 of the spec, three frames: three \<open>NewPage\<close> calls give
  pages 0, 1, 2, a fourth gives none; after \<open>UnpinPage(1, true)\<close> the next \<open>NewPage\<close>
  gives page 3 in the frame of page 1, and page 1 is on disk. It was written twice: by
  the unpin and by the eviction.
\<close>

theorem buffer_pool_scenario_S1:
  "(case NewPgImp pool3 of
      Inr (r0, s0) \<Rightarrow>
       (case NewPgImp s0 of
          Inr (r1, s1) \<Rightarrow>
           (case NewPgImp s1 of
              Inr (r2, s2) \<Rightarrow>
               (case NewPgImp s2 of
                  Inr (r3, s3) \<Rightarrow>
                   (case UnpinPgImp 1 True s3 of
                      (u, s4) \<Rightarrow>
                       (case NewPgImp s4 of
                          Inr (r5, s5) \<Rightarrow>
                            Some (r0, r1, r2, r3, u, r5, disk s5 1, disk_writes s5, page_table s5 1)
                        | Inl e \<Rightarrow> None))
                | Inl e \<Rightarrow> None)
            | Inl e \<Rightarrow> None)
        | Inl e \<Rightarrow> None)
    | Inl e \<Rightarrow> None)
   = Some (Some (0, 0), Some (1, 1), Some (2, 2), None, True, Some (3, 1), Some 0, [1, 1], None)"
  by (simp add: bpm_defs bpm_scenario_defs Let_def upt_rec insert_Diff_if
        cong: prod.case_cong_weak let_weak_cong)

section \<open>Lock manager: properties\<close>

text \<open>
  \<open>Prevent\<close> for requester \<open>t\<close>, registered at address \<open>a\<close>, changes no transaction
  object but the one at \<open>a\<close>.
\<close>

theorem Prevent_loop_other_transactions:
  "Prevent_loop t reqs (rq, s) = Inr (rq', s') \<Longrightarrow> id_txn s t = Some a \<Longrightarrow> b \<noteq> a
     \<Longrightarrow> txns s' b = txns s b"
proof (induction reqs arbitrary: rq s)
  case Nil
  then show ?case by simp
next
  case (Cons request rest)
  show ?case
  proof (cases "granted request \<and> txn_id request = t")
    case True
    let ?s1 = "SetState a ABORTED s"
    let ?rq1 = "(if lock_mode request = SHARED then rq\<lparr>refcount := refcount rq - 1\<rparr>
                 else rq\<lparr>waiting := False\<rparr>)"
    from Cons.prems True have step: "Prevent_loop t rest (?rq1, ?s1) = Inr (rq', s')"
      by (simp add: Let_def)
    have "id_txn ?s1 t = Some a" using Cons.prems(2) by (simp add: SetState_def)
    from Cons.IH[OF step this Cons.prems(3)] Cons.prems(3) show ?thesis
      by (simp add: SetState_def)
  next
    case False
    with Cons.prems have "Prevent_loop t rest (rq, s) = Inr (rq', s')" by auto
    from Cons.IH[OF this Cons.prems(2,3)] show ?thesis .
  qed
qed

theorem Prevent_loop_other_transactions_witness:
  "Prevent_loop 0 [\<lparr>txn_id = 0, lock_mode = SHARED, granted = True\<rparr>]
       (LockRequestQueue_new, emplace_txn 0 0 (LockManager_new (txns_of REPEATABLE_READ)))
     = Inr (LockRequestQueue_new\<lparr>refcount := - 1\<rparr>,
            SetState 0 ABORTED (emplace_txn 0 0 (LockManager_new (txns_of REPEATABLE_READ))))
   \<and> id_txn (emplace_txn 0 0 (LockManager_new (txns_of REPEATABLE_READ))) 0 = Some 0
   \<and> (1::nat) \<noteq> 0
   \<and> txns (SetState 0 ABORTED (emplace_txn 0 0 (LockManager_new (txns_of REPEATABLE_READ)))) 1
       = txns (emplace_txn 0 0 (LockManager_new (txns_of REPEATABLE_READ))) 1
   \<and> state (txns (SetState 0 ABORTED (emplace_txn 0 0 (LockManager_new (txns_of REPEATABLE_READ)))) 0)
       = ABORTED"
  using Prevent_loop_other_transactions
          [of 0 "[\<lparr>txn_id = 0, lock_mode = SHARED, granted = True\<rparr>]" LockRequestQueue_new
              "emplace_txn 0 0 (LockManager_new (txns_of REPEATABLE_READ))"
              "LockRequestQueue_new\<lparr>refcount := - 1\<rparr>"
              "SetState 0 ABORTED (emplace_txn 0 0 (LockManager_new (txns_of REPEATABLE_READ)))" 0 1]
  by (simp add: lm_defs Let_def)

lemma remove_from_unique:
  "filter (\<lambda>r. txn_id r = t) reqs = [req] \<Longrightarrow> remove_from reqs t = req"
  by (induction reqs) (auto split: if_splits)

text \<open>
  Claim C1. The claim is that a requester that has to wait first wounds the granted
  holders younger than itself, and that in scenario S5 the oldest transaction aborts
  the younger shared holder and the younger waiting requester and acquires the lock.
  \<open>Prevent\<close> only touches granted requests of the requester itself: whatever the
  queue, every other transaction's object is as before (the lemma above). In S5, run on the
  model: transaction 1 takes a shared lock on \<open>r\<close>, transaction 2 asks for the exclusive
  lock and blocks, transaction 0 asks for the exclusive lock and blocks as well; all
  three are still GROWING, transaction 1 still counts as a shared holder and no
  exclusive lock is held.
\<close>

theorem S5_older_requester_wounds_nobody:
  "(case LockShared 1 rid_r (LockManager_new (txns_of REPEATABLE_READ)) of (o1, s1) \<Rightarrow>
    case LockExclusive 2 rid_r s1 of (o2, s2) \<Rightarrow>
    case LockExclusive 0 rid_r s2 of (o3, s3) \<Rightarrow>
      (o1, o2, o3, state (txns s3 1), state (txns s3 2), state (txns s3 0),
       map_option refcount (lock_table s3 rid_r), map_option waiting (lock_table s3 rid_r),
       map_option (map granted \<circ> request_queue) (lock_table s3 rid_r),
       map_option notified (lock_table s3 rid_r)))
   = (Returns True, Blocks, Blocks, GROWING, GROWING, GROWING, Some 1, Some False,
      Some [True, False, False], Some 0)"
  by (simp add: lm_defs Let_def)

text \<open>
  Claim C6. The claim is that \<open>Unlock\<close> takes the transaction's request out of the
  queue, and tells a transaction without a request apart. \<open>LockRequestQueue::remove\<close>
  erases nothing and answers a miss with a shared request: after transaction 1 locked
  \<open>r\<close> shared and unlocked it, its request is still in the queue; and an \<open>Unlock\<close> by
  transaction 2, which never asked for \<open>r\<close>, returns true, takes the holder count from
  1 to 0 and moves transaction 2 to SHRINKING.
\<close>

theorem Unlock_leaves_request_and_accepts_strangers:
  "(case LockShared 1 rid_r (LockManager_new (txns_of REPEATABLE_READ)) of (o1, s1) \<Rightarrow>
    case Unlock 1 rid_r s1 of (o2, s2) \<Rightarrow>
    case Unlock 2 rid_r s1 of (o3, s3) \<Rightarrow>
      (o1, map_option (map txn_id \<circ> request_queue) (lock_table s1 rid_r),
       map_option refcount (lock_table s1 rid_r),
       o2, map_option (map txn_id \<circ> request_queue) (lock_table s2 rid_r),
       o3, map_option refcount (lock_table s3 rid_r), state (txns s3 2)))
   = (Returns True, Some [1], Some 1,
      Returns True, Some [1],
      Returns True, Some 0, SHRINKING)"
  by (simp add: lm_defs Let_def)

text \<open>
  What \<open>Unlock\<close> does with the mode it records. On a row that has a queue, \<open>Unlock\<close>
  moves the transaction from GROWING to SHRINKING exactly when it was GROWING and it is
  not the case that the mode returned by \<open>LockRequestQueue::remove\<close> is SHARED and the
  isolation level is READ\_COMMITTED; in any other state it leaves the state alone. The
  mode returned is the mode of the transaction's request only when the queue holds
  exactly one request of the transaction.
\<close>

lemma Unlock_transition_on_recorded_mode:
  assumes "lock_table s rid = Some rq"
      and "tx = txns s txn" and "tx' = txns (snd (Unlock txn rid s)) txn"
      and "mode = lock_mode (remove_request rq (transaction_id tx))"
  shows "((state tx = GROWING \<and> state tx' = SHRINKING) \<longleftrightarrow>
            (state tx = GROWING \<and> \<not> (mode = SHARED \<and> isolation_level tx = READ_COMMITTED)))
       \<and> (state tx \<noteq> GROWING \<longrightarrow> state tx' = state tx)
       \<and> (state tx = GROWING \<and> mode = SHARED \<and> isolation_level tx = REPEATABLE_READ \<longrightarrow> state tx' = SHRINKING)
       \<and> (state tx = GROWING \<and> mode = SHARED \<and> isolation_level tx = READ_COMMITTED \<longrightarrow> state tx' = GROWING)
       \<and> (\<forall>req. filter (\<lambda>r. txn_id r = transaction_id tx) (request_queue rq) = [req]
                 \<longrightarrow> mode = lock_mode req)
       \<and> fst (Unlock txn rid s) = Returns True"
proof -
  have transition:
    "((state tx = GROWING \<and> state tx' = SHRINKING) \<longleftrightarrow>
            (state tx = GROWING \<and> \<not> (mode = SHARED \<and> isolation_level tx = READ_COMMITTED)))
       \<and> (state tx \<noteq> GROWING \<longrightarrow> state tx' = state tx)
       \<and> (state tx = GROWING \<and> mode = SHARED \<and> isolation_level tx = REPEATABLE_READ \<longrightarrow> state tx' = SHRINKING)
       \<and> (state tx = GROWING \<and> mode = SHARED \<and> isolation_level tx = READ_COMMITTED \<longrightarrow> state tx' = GROWING)
       \<and> fst (Unlock txn rid s) = Returns True"
    using assms by (auto simp add: Unlock_def put_queue_def Let_def)
  have recorded: "mode = lock_mode req"
    if "filter (\<lambda>r. txn_id r = transaction_id tx) (request_queue rq) = [req]" for req
    using that assms(4) by (simp add: remove_request_def remove_from_unique)
  from transition recorded show ?thesis by blast
qed

lemma two_shared_locks_eval:
  "lock_table (two_shared_locks lvl) rid_r = (if lvl = READ_UNCOMMITTED then None else Some one_shared_queue)"
  "lock_mode (remove_request one_shared_queue 0) = SHARED"
  "transaction_id (txns (two_shared_locks lvl) 0) = 0"
  "isolation_level (txns (two_shared_locks lvl) 0) = lvl"
  "state (txns (two_shared_locks lvl) 0) = (if lvl = READ_UNCOMMITTED then ABORTED else GROWING)"
  by (simp_all add: lm_defs Let_def)

lemma Unlock_transition_scenario_S6:
  "lock_table (two_shared_locks REPEATABLE_READ) rid_r = Some one_shared_queue
   \<and> lock_table (two_shared_locks READ_COMMITTED) rid_r = Some one_shared_queue
   \<and> lock_mode (remove_request one_shared_queue 0) = SHARED
   \<and> state (txns (two_shared_locks REPEATABLE_READ) 0) = GROWING
   \<and> state (txns (two_shared_locks READ_COMMITTED) 0) = GROWING
   \<and> state (txns (snd (Unlock 0 rid_r (two_shared_locks REPEATABLE_READ))) 0) = SHRINKING
   \<and> state (txns (snd (Unlock 0 rid_r (two_shared_locks READ_COMMITTED))) 0) = GROWING"
proof -
  have rr: "lock_table (two_shared_locks REPEATABLE_READ) rid_r = Some one_shared_queue"
    and rc: "lock_table (two_shared_locks READ_COMMITTED) rid_r = Some one_shared_queue"
    by (simp_all add: two_shared_locks_eval)
  have "state (txns (snd (Unlock 0 rid_r (two_shared_locks REPEATABLE_READ))) 0) = SHRINKING"
    using Unlock_transition_on_recorded_mode [OF rr refl refl refl, of 0,
            THEN conjunct2, THEN conjunct2, THEN conjunct1]
    by (simp add: two_shared_locks_eval)
  moreover
  have "state (txns (snd (Unlock 0 rid_r (two_shared_locks READ_COMMITTED))) 0) = GROWING"
    using Unlock_transition_on_recorded_mode [OF rc refl refl refl, of 0,
            THEN conjunct2, THEN conjunct2, THEN conjunct2, THEN conjunct1]
    by (simp add: two_shared_locks_eval)
  ultimately show ?thesis
    using rr rc by (simp add: two_shared_locks_eval)
qed

text \<open>
  Claim C7. The claim is that \<open>Unlock\<close> moves a GROWING transaction to SHRINKING unless
  the released lock is SHARED and the isolation level is READ\_COMMITTED.
  \<open>LockRequestQueue::remove\<close> erases nothing and returns the first request of the
  transaction in the queue, so \<open>Unlock\<close> tests the mode of the oldest request the
  transaction ever made on the row, not the mode of the lock it releases. Transaction 0
  under READ\_COMMITTED locks \<open>r\<close> shared, unlocks it, locks \<open>r\<close> exclusive and unlocks
  it: before the last \<open>Unlock\<close> the row is in its exclusive lock set and in no shared
  lock set, and the queue holds the stale shared request in front of the exclusive one;
  the \<open>Unlock\<close> of the exclusive lock leaves the transaction GROWING, where the same
  transaction releasing an exclusive lock on a fresh row becomes SHRINKING.
\<close>

theorem Unlock_of_exclusive_lock_tests_stale_shared_request:
  "(case LockShared 0 rid_r (LockManager_new (txns_of READ_COMMITTED)) of (o1, s1) \<Rightarrow>
    case Unlock 0 rid_r s1 of (o2, s2) \<Rightarrow>
    case LockExclusive 0 rid_r s2 of (o3, s3) \<Rightarrow>
    case Unlock 0 rid_r s3 of (o4, s4) \<Rightarrow>
      (o1, o2, state (txns s2 0),
       o3, rid_r \<in> exclusive_lock_set (txns s3 0), rid_r \<in> shared_lock_set (txns s3 0),
       state (txns s3 0), isolation_level (txns s3 0),
       map_option (map lock_mode \<circ> request_queue) (lock_table s3 rid_r),
       o4, rid_r \<in> exclusive_lock_set (txns s4 0), state (txns s4 0),
       state (txns (after_exclusive_unlock READ_COMMITTED) 0)))
   = (Returns True, Returns True, GROWING,
      Returns True, True, False, GROWING, READ_COMMITTED,
      Some [SHARED, EXCLUSIVE],
      Returns True, False, GROWING,
      SHRINKING)"
  by (simp add: lm_defs Let_def)

text \<open>
  Claim C8, as the source has it. The claim says every locking call of a SHRINKING
  transaction fails with LOCK\_ON\_SHRINKING, at every isolation level. \<open>LockShared\<close>
  tests the isolation level before the state: a READ\_UNCOMMITTED transaction that took
  and released an exclusive lock (so it is SHRINKING) gets
  LOCKSHARED\_ON\_READ\_UNCOMMITTED from \<open>LockShared\<close>.
\<close>

theorem LockShared_read_uncommitted_shrinking:
  "state (txns (after_exclusive_unlock READ_UNCOMMITTED) 0) = SHRINKING
   \<and> isolation_level (txns (after_exclusive_unlock READ_UNCOMMITTED) 0) = READ_UNCOMMITTED
   \<and> fst (LockShared 0 rid_r2 (after_exclusive_unlock READ_UNCOMMITTED))
        = Throws 0 LOCKSHARED_ON_READ_UNCOMMITTED
   \<and> fst (LockShared 0 rid_r2 (after_exclusive_unlock READ_UNCOMMITTED))
        \<noteq> Throws 0 LOCK_ON_SHRINKING
   \<and> state (txns (snd (LockShared 0 rid_r2 (after_exclusive_unlock READ_UNCOMMITTED))) 0) = ABORTED"
  by (simp add: lm_defs Let_def)

text \<open>
  Claim C8, amended. For a transaction whose state is SHRINKING: \<open>LockExclusive\<close> and
  \<open>LockUpgrade\<close> at every isolation level, and \<open>LockShared\<close> at every isolation level but
  READ\_UNCOMMITTED, set the state to ABORTED and throw LOCK\_ON\_SHRINKING;
  \<open>LockShared\<close> of a READ\_UNCOMMITTED transaction sets the state to ABORTED and throws
  LOCKSHARED\_ON\_READ\_UNCOMMITTED.
\<close>

theorem lock_on_shrinking_aborts:
  assumes "state (txns s txn) = SHRINKING" and "t = transaction_id (txns s txn)"
  shows "fst (LockExclusive txn rid s) = Throws t LOCK_ON_SHRINKING
       \<and> state (txns (snd (LockExclusive txn rid s)) txn) = ABORTED
       \<and> fst (LockUpgrade txn rid s) = Throws t LOCK_ON_SHRINKING
       \<and> state (txns (snd (LockUpgrade txn rid s)) txn) = ABORTED
       \<and> state (txns (snd (LockShared txn rid s)) txn) = ABORTED
       \<and> fst (LockShared txn rid s) =
            (if isolation_level (txns s txn) = READ_UNCOMMITTED
             then Throws t LOCKSHARED_ON_READ_UNCOMMITTED else Throws t LOCK_ON_SHRINKING)"
  using assms
  by (simp add: LockExclusive_def LockUpgrade_def LockShared_def SetState_def emplace_txn_def Let_def)

theorem lock_on_shrinking_aborts_witness:
  "state (txns (after_unlock REPEATABLE_READ) 0) = SHRINKING
   \<and> transaction_id (txns (after_unlock REPEATABLE_READ) 0) = 0
   \<and> fst (LockExclusive 0 rid_r (after_unlock REPEATABLE_READ)) = Throws 0 LOCK_ON_SHRINKING
   \<and> fst (LockUpgrade 0 rid_r2 (after_unlock REPEATABLE_READ)) = Throws 0 LOCK_ON_SHRINKING
   \<and> fst (LockShared 0 rid_r (after_unlock REPEATABLE_READ)) = Throws 0 LOCK_ON_SHRINKING
   \<and> state (txns (snd (LockShared 0 rid_r (after_unlock REPEATABLE_READ))) 0) = ABORTED"
  using lock_on_shrinking_aborts [of "after_unlock REPEATABLE_READ" 0 0 rid_r]
        lock_on_shrinking_aborts [of "after_unlock REPEATABLE_READ" 0 0 rid_r2]
  by (simp add: lm_defs Let_def)

section \<open>Bucket page and split migration: properties\<close>

subsection \<open>The bitmaps\<close>

lemma byte_test_bit: "((drop_bit n (w::8 word) AND 1) \<noteq> 0) = bit w n"
  by (simp add: bit_iff_odd_drop_bit and_one_eq mod_2_eq_odd)

lemma byte_set_bit: "n < 8 \<Longrightarrow> bit ((w::8 word) OR 2 ^ m) n = (bit w n \<or> n = m)"
  by (auto simp add: bit_or_iff bit_exp_iff)

lemma byte_clear_bit: "n < 8 \<Longrightarrow> bit ((w::8 word) AND NOT (2 ^ m)) n = (bit w n \<and> n \<noteq> m)"
  by (auto simp add: bit_and_iff bit_not_iff bit_exp_iff)

lemma slot_index_eq: "((i::nat) div 8 = j div 8 \<and> i mod 8 = j mod 8) = (i = j)"
  by (metis div_mult_mod_eq)

lemma IsOccupied_bit: "IsOccupied B b i = (i < B \<and> bit (occupied b (i div 8)) (i mod 8))"
  by (simp add: IsOccupied_def byte_test_bit)

lemma IsReadable_bit:
  "IsReadable B b i = (i < B \<and> bit (occupied b (i div 8)) (i mod 8) \<and> bit (readable b (i div 8)) (i mod 8))"
  by (auto simp add: IsReadable_def IsOccupied_bit byte_test_bit)

lemma IsReadable_less: "IsReadable B b i \<Longrightarrow> i < B"
  by (simp add: IsReadable_bit)

lemma IsOccupied_SetOccupied:
  "i < B \<Longrightarrow> IsOccupied B (SetOccupied B b i) j = (j < B \<and> (j = i \<or> IsOccupied B b j))"
  using slot_index_eq[of j i]
  by (auto simp add: IsOccupied_bit SetOccupied_def byte_set_bit)

lemma IsReadable_UnsetReadable:
  "IsReadable B (UnsetReadable B b i) j = (j \<noteq> i \<and> IsReadable B b j)"
  using slot_index_eq[of j i]
  by (auto simp add: IsReadable_bit UnsetReadable_def byte_clear_bit)

lemma IsReadable_RemoveAt:
  "IsReadable B (RemoveAt B b i) j = (j \<noteq> i \<and> IsReadable B b j)"
  by (auto simp add: RemoveAt_def IsReadable_UnsetReadable)

lemma array_RemoveAt: "array (RemoveAt B b i) = array b"
  by (simp add: RemoveAt_def UnsetReadable_def)

lemma occupied_RemoveAt: "occupied (RemoveAt B b i) = occupied b"
  by (simp add: RemoveAt_def UnsetReadable_def)

lemma IsReadable_insert_slot:
  "i < B \<Longrightarrow>
   IsReadable B (SetReadable B (SetOccupied B (b\<lparr>array := a\<rparr>) i) i) j
     = (j < B \<and> (j = i \<or> IsReadable B b j))"
  using slot_index_eq[of j i]
  by (auto simp add: IsReadable_bit IsOccupied_bit SetReadable_def SetOccupied_def byte_set_bit)

lemma IsOccupied_insert_slot:
  "i < B \<Longrightarrow>
   IsOccupied B (SetReadable B (SetOccupied B (b\<lparr>array := a\<rparr>) i) i) j
     = (j < B \<and> (j = i \<or> IsOccupied B b j))"
  using slot_index_eq[of j i]
  by (auto simp add: IsOccupied_bit SetReadable_def SetOccupied_def byte_set_bit)

lemma array_insert_slot:
  "array (SetReadable B (SetOccupied B (b\<lparr>array := a\<rparr>) i) i) = a"
  by (simp add: SetReadable_def SetOccupied_def)

lemma NumReadable_loop_step:
  "i < B \<Longrightarrow> IsOccupied B b i \<Longrightarrow>
   NumReadable_loop B b i cnt = NumReadable_loop B b (i + 1) (if IsReadable B b i then cnt + 1 else cnt)"
  by (subst NumReadable_loop.simps) simp

lemma NumReadable_loop_stop:
  "\<not> i < B \<or> \<not> IsOccupied B b i \<Longrightarrow> NumReadable_loop B b i cnt = cnt"
  by (subst NumReadable_loop.simps) auto

lemma NumReadable_loop_le: "NumReadable_loop B b i cnt \<le> cnt + (B - i)"
proof (induction B b i cnt rule: NumReadable_loop.induct)
  case (1 B b i cnt)
  show ?case
  proof (cases "i < B \<and> IsOccupied B b i")
    case True
    have "NumReadable_loop B b i cnt =
            NumReadable_loop B b (i + 1) (if IsReadable B b i then cnt + 1 else cnt)"
      using True by (simp add: NumReadable_loop_step)
    moreover have "NumReadable_loop B b (i + 1) (if IsReadable B b i then cnt + 1 else cnt)
                     \<le> (if IsReadable B b i then cnt + 1 else cnt) + (B - (i + 1))"
      using "1.IH"[OF True] .
    ultimately show ?thesis using True by (auto split: if_splits)
  next
    case False
    then have "NumReadable_loop B b i cnt = cnt"
      by (simp add: NumReadable_loop_stop)
    then show ?thesis by simp
  qed
qed

lemma NumReadable_loop_full:
  "NumReadable_loop B b i cnt = cnt + (B - i) \<Longrightarrow> i \<le> j \<Longrightarrow> j < B \<Longrightarrow> IsReadable B b j"
proof (induction B b i cnt rule: NumReadable_loop.induct)
  case (1 B b i cnt)
  have iB: "i < B" using "1.prems" by simp
  show ?case
  proof (cases "IsOccupied B b i")
    case True
    have unf: "NumReadable_loop B b i cnt =
            NumReadable_loop B b (i + 1) (if IsReadable B b i then cnt + 1 else cnt)"
      using True iB by (simp add: NumReadable_loop_step)
    have le: "NumReadable_loop B b (i + 1) (if IsReadable B b i then cnt + 1 else cnt)
                     \<le> (if IsReadable B b i then cnt + 1 else cnt) + (B - (i + 1))"
      by (rule NumReadable_loop_le)
    have r: "IsReadable B b i"
    proof (rule ccontr)
      assume "\<not> IsReadable B b i"
      with le unf "1.prems"(1) iB show False by simp
    qed
    show ?thesis
    proof (cases "j = i")
      case True
      with r show ?thesis by simp
    next
      case False
      have eq: "NumReadable_loop B b (i + 1) (if IsReadable B b i then cnt + 1 else cnt)
                  = (if IsReadable B b i then cnt + 1 else cnt) + (B - (i + 1))"
        using unf "1.prems"(1) r iB by simp
      from False "1.prems" have "i + 1 \<le> j" by simp
      from "1.IH"[OF _ eq this "1.prems"(3)] True iB show ?thesis by simp
    qed
  next
    case False
    then have "NumReadable_loop B b i cnt = cnt"
      by (simp add: NumReadable_loop_stop)
    with "1.prems"(1) iB show ?thesis by simp
  qed
qed

lemma IsFull_all_readable: "IsFull B b \<Longrightarrow> j < B \<Longrightarrow> IsReadable B b j"
  using NumReadable_loop_full[of B b 0 0 j] by (simp add: IsFull_def NumReadable_def)

lemma migrate_loop_is_fold:
  "i \<le> B \<Longrightarrow> (\<And>j. i \<le> j \<Longrightarrow> j < B \<Longrightarrow> IsReadable B bucket j) \<Longrightarrow>
   migrate_loop B cmp h lm hb B i (bucket, img, n)
     = fold (migrate_slot B cmp h lm hb) [i..<B] (bucket, img, n)"
proof (induction "B - i" arbitrary: i bucket img n)
  case 0
  then have "i = B" by simp
  then show ?case by (subst migrate_loop.simps) simp
next
  case (Suc d)
  then have iB: "i < B" by simp
  have ri: "IsReadable B bucket i" using Suc.prems(2)[of i] iB by simp
  obtain bucket' img' n' where st: "migrate_slot B cmp h lm hb i (bucket, img, n) = (bucket', img', n')"
    by (cases "migrate_slot B cmp h lm hb i (bucket, img, n)") auto
  have unf: "migrate_loop B cmp h lm hb B i (bucket, img, n)
               = migrate_loop B cmp h lm hb B (i + 1) (bucket', img', n')"
    using iB ri st by (subst migrate_loop.simps) (simp add: migrate_slot_def)
  have rd: "\<And>j. i + 1 \<le> j \<Longrightarrow> j < B \<Longrightarrow> IsReadable B bucket' j"
  proof -
    fix j assume j: "i + 1 \<le> j" "j < B"
    then have "IsReadable B bucket j" using Suc.prems(2)[of j] by simp
    with j st show "IsReadable B bucket' j"
      by (auto simp add: migrate_slot_def IsReadable_RemoveAt split: if_splits)
  qed
  have "migrate_loop B cmp h lm hb B (i + 1) (bucket', img', n')
          = fold (migrate_slot B cmp h lm hb) [i + 1..<B] (bucket', img', n')"
    using Suc.hyps(1)[of "i + 1" bucket' img' n'] Suc.hyps(2) iB rd by simp
  with unf st iB show ?case by (simp add: upt_conv_Cons)
qed

lemma first_unoccupied_compact:
  assumes "m \<le> B" and "\<And>j. IsOccupied B img j = (j < m)"
  shows "i \<le> m \<Longrightarrow> first_unoccupied B img i = m"
proof (induction "m - i" arbitrary: i)
  case 0
  then have "i = m" by simp
  then show ?case using assms by (subst first_unoccupied.simps) simp
next
  case (Suc d)
  then have "i < m" by simp
  then have "first_unoccupied B img i = first_unoccupied B img (i + 1)"
    using assms by (subst first_unoccupied.simps) simp
  moreover have "first_unoccupied B img (i + 1) = m"
    using Suc.hyps(1)[of "i + 1"] Suc.hyps(2) \<open>i < m\<close> by simp
  ultimately show ?case by simp
qed


lemma GetValue_loop_step:
  "i < B \<Longrightarrow> IsOccupied B b i \<Longrightarrow>
   GetValue_loop B cmp b key i result =
     GetValue_loop B cmp b key (i + 1)
       (if IsReadable B b i \<and> cmp (KeyAt B b i) key = 0 then result @ [ValueAt B b i] else result)"
  by (subst GetValue_loop.simps) simp

lemma GetValue_loop_stop:
  "\<not> i < B \<or> \<not> IsOccupied B b i \<Longrightarrow> GetValue_loop B cmp b key i result = result"
  by (subst GetValue_loop.simps) auto

lemma GetValue_loop_compact:
  assumes "m \<le> B" and "\<And>j. IsOccupied B img j = (j < m)" and "\<And>j. IsReadable B img j = (j < m)"
  shows "i \<le> m \<Longrightarrow>
         set (GetValue_loop B cmp img key i result)
           = set result \<union> {snd (array img s) | s. i \<le> s \<and> s < m \<and> cmp (fst (array img s)) key = 0}"
proof (induction "m - i" arbitrary: i result)
  case 0
  then have "i = m" by simp
  with assms(2)[of i] have "GetValue_loop B cmp img key i result = result"
    by (simp add: GetValue_loop_stop)
  with \<open>i = m\<close> show ?case by auto
next
  case (Suc d)
  then have im: "i < m" by simp
  let ?P = "\<lambda>s. cmp (fst (array img s)) key = 0"
  let ?r = "(if ?P i then result @ [snd (array img i)] else result)"
  have unf: "GetValue_loop B cmp img key i result = GetValue_loop B cmp img key (i + 1) ?r"
    using assms im by (simp add: GetValue_loop_step KeyAt_def ValueAt_def)
  have ih: "set (GetValue_loop B cmp img key (i + 1) ?r)
              = set ?r \<union> {snd (array img s) | s. i + 1 \<le> s \<and> s < m \<and> ?P s}"
    using Suc.hyps(1)[of "i + 1" ?r] Suc.hyps(2) im by simp
  have "{snd (array img s) | s. i \<le> s \<and> s < m \<and> ?P s}
          = (if ?P i then {snd (array img i)} else {}) \<union> {snd (array img s) | s. i + 1 \<le> s \<and> s < m \<and> ?P s}"
    (is "?L = ?R")
  proof (rule set_eqI)
    fix v
    show "(v \<in> ?L) = (v \<in> ?R)"
    proof
      assume "v \<in> ?L"
      then obtain s where s: "v = snd (array img s)" "i \<le> s" "s < m" "?P s" by blast
      show "v \<in> ?R"
      proof (cases "s = i")
        case True
        with s show ?thesis by simp
      next
        case False
        with s have "i + 1 \<le> s" by simp
        with s show ?thesis by auto
      qed
    next
      assume "v \<in> ?R"
      then consider "?P i \<and> v = snd (array img i)"
        | s where "v = snd (array img s)" "i + 1 \<le> s" "s < m" "?P s"
        by (auto split: if_splits)
      then show "v \<in> ?L"
      proof cases
        case 1
        with im show ?thesis by blast
      next
        case 2
        then have "i \<le> s" by simp
        with 2 show ?thesis by blast
      qed
    qed
  qed
  then show ?case unfolding unf ih by (simp split: if_splits)
qed



lemma Bucket_Insert_compact:
  assumes exact: "\<And>a b. (cmp a b = 0) = (a = b)"
      and m: "m < B"
      and occ: "\<And>j. IsOccupied B img j = (j < m)"
      and rd: "\<And>j. IsReadable B img j = (j < m)"
      and img': "img' = snd (Bucket_Insert B cmp img key val)"
  shows "\<exists>m'. m \<le> m' \<and> m' \<le> m + 1
            \<and> (\<forall>j. IsOccupied B img' j = (j < m')) \<and> (\<forall>j. IsReadable B img' j = (j < m'))
            \<and> (\<forall>s<m. array img' s = array img s) \<and> (\<exists>s<m'. array img' s = (key, val))"
proof -
  have mB: "m \<le> B" using m by simp
  have gv: "set (snd (Bucket_GetValue B cmp img key []))
              = {snd (array img s) | s. s < m \<and> fst (array img s) = key}"
    using GetValue_loop_compact[OF mB occ rd, of 0 cmp key "[]"]
    by (simp add: Bucket_GetValue_def Let_def exact)
  have fu: "first_unoccupied B img 0 = m"
    using first_unoccupied_compact[OF mB occ, of 0] by simp
  show ?thesis
  proof (cases "val \<in> set (snd (Bucket_GetValue B cmp img key []))")
    case True
    then obtain s where s0: "s < m" "fst (array img s) = key" "snd (array img s) = val"
      unfolding gv by auto
    then have s: "s < m" "array img s = (key, val)"
      by (simp_all add: prod_eq_iff)
    have "img' = img" using True img' by (simp add: Bucket_Insert_def Let_def)
    have same: "img' = img" by fact
    show ?thesis
    proof (rule exI[of _ m], intro conjI)
      show "m \<le> m" "m \<le> m + 1" by simp_all
      show "\<forall>j. IsOccupied B img' j = (j < m)" unfolding same by (simp add: occ)
      show "\<forall>j. IsReadable B img' j = (j < m)" unfolding same by (simp add: rd)
      show "\<forall>s<m. array img' s = array img s" unfolding same by simp
      show "\<exists>s<m. array img' s = (key, val)" unfolding same using s by blast
    qed
  next
    case False
    then have eq: "img' = SetReadable B (SetOccupied B (img\<lparr>array := (array img)(m := (key, val))\<rparr>) m) m"
      using img' fu m by (simp add: Bucket_Insert_def Let_def)
    show ?thesis
    proof (rule exI[of _ "m + 1"], intro conjI allI)
      show "m \<le> m + 1" "m + 1 \<le> m + 1" by simp_all
      show "\<exists>s<m + 1. array img' s = (key, val)"
        unfolding eq by (intro exI[of _ m]) (simp add: array_insert_slot)
      show "s < m \<longrightarrow> array img' s = array img s" for s
        unfolding eq by (simp add: array_insert_slot)
      show "IsOccupied B img' j = (j < m + 1)" for j
      proof -
        have "IsOccupied B img' j = (j < B \<and> (j = m \<or> j < m))"
          unfolding eq by (simp add: IsOccupied_insert_slot m occ)
        then show ?thesis using m by auto
      qed
      show "IsReadable B img' j = (j < m + 1)" for j
      proof -
        have "IsReadable B img' j = (j < B \<and> (j = m \<or> j < m))"
          unfolding eq by (simp add: IsReadable_insert_slot m rd)
        then show ?thesis using m by auto
      qed
    qed
  qed
qed

lemma zero_bucket_unoccupied: "IsOccupied B HashTableBucketPage_zero j = False"
  by (simp add: IsOccupied_bit HashTableBucketPage_zero_def)

lemma zero_bucket_unreadable: "IsReadable B HashTableBucketPage_zero j = False"
  by (simp add: IsReadable_bit HashTableBucketPage_zero_def)

lemma migrate_prefix:
  assumes exact: "\<And>a b. (cmp a b = 0) = (a = b)"
      and allr: "\<And>j. j < B \<Longrightarrow> IsReadable B b j"
  shows "k \<le> B \<Longrightarrow>
     \<exists>bk imgk nk m.
        fold (migrate_slot B cmp h lm hb) [0..<k] (b, HashTableBucketPage_zero, 0) = (bk, imgk, nk)
      \<and> array bk = array b
      \<and> (\<forall>j. IsReadable B bk j = (IsReadable B b j \<and> \<not> (j < k \<and> (h (fst (array b j)) AND lm) = hb)))
      \<and> m \<le> k
      \<and> (\<forall>j. IsOccupied B imgk j = (j < m))
      \<and> (\<forall>j. IsReadable B imgk j = (j < m))
      \<and> (\<forall>j<k. (h (fst (array b j)) AND lm) = hb \<longrightarrow> (\<exists>s<m. array imgk s = array b j))"
proof (induction k)
  case 0
  show ?case
    by (rule exI[of _ b], rule exI[of _ HashTableBucketPage_zero], rule exI[of _ 0], rule exI[of _ 0])
       (simp add: zero_bucket_unoccupied zero_bucket_unreadable)
next
  case (Suc k)
  then have kB: "k < B" by simp
  from Suc obtain bk imgk nk m where
        f: "fold (migrate_slot B cmp h lm hb) [0..<k] (b, HashTableBucketPage_zero, 0) = (bk, imgk, nk)"
    and arr: "array bk = array b"
    and rdb: "\<And>j. IsReadable B bk j = (IsReadable B b j \<and> \<not> (j < k \<and> (h (fst (array b j)) AND lm) = hb))"
    and mk: "m \<le> k"
    and occ: "\<And>j. IsOccupied B imgk j = (j < m)"
    and rdi: "\<And>j. IsReadable B imgk j = (j < m)"
    and moved: "\<And>j. j < k \<Longrightarrow> (h (fst (array b j)) AND lm) = hb \<Longrightarrow> \<exists>s<m. array imgk s = array b j"
    by auto
  have rk: "IsReadable B bk k" using rdb[of k] allr[OF kB] by simp
  have key: "KeyAt B bk k = fst (array b k)" and val: "ValueAt B bk k = snd (array b k)"
    using rk arr by (simp_all add: KeyAt_def ValueAt_def)
  have fS: "fold (migrate_slot B cmp h lm hb) [0..<Suc k] (b, HashTableBucketPage_zero, 0)
              = migrate_slot B cmp h lm hb k (bk, imgk, nk)"
    using f by simp
  show ?case
  proof (cases "(h (fst (array b k)) AND lm) = hb")
    case False
    have st: "migrate_slot B cmp h lm hb k (bk, imgk, nk) = (bk, imgk, nk)"
      using False key by (simp add: migrate_slot_def)
    show ?thesis
    proof (rule exI[of _ bk], rule exI[of _ imgk], rule exI[of _ nk], rule exI[of _ m], intro conjI)
      show "fold (migrate_slot B cmp h lm hb) [0..<Suc k] (b, HashTableBucketPage_zero, 0) = (bk, imgk, nk)"
        using fS st by simp
      show "array bk = array b" by (rule arr)
      show "\<forall>j. IsReadable B bk j = (IsReadable B b j \<and> \<not> (j < Suc k \<and> (h (fst (array b j)) AND lm) = hb))"
        using rdb False by (auto simp add: less_Suc_eq)
      show "m \<le> Suc k" using mk by simp
      show "\<forall>j. IsOccupied B imgk j = (j < m)" using occ by simp
      show "\<forall>j. IsReadable B imgk j = (j < m)" using rdi by simp
      show "\<forall>j<Suc k. (h (fst (array b j)) AND lm) = hb \<longrightarrow> (\<exists>s<m. array imgk s = array b j)"
        using moved False by (auto simp add: less_Suc_eq)
    qed
  next
    case True
    define img' where "img' = snd (Bucket_Insert B cmp imgk (fst (array b k)) (snd (array b k)))"
    have st: "migrate_slot B cmp h lm hb k (bk, imgk, nk) = (RemoveAt B bk k, img', nk + 1)"
      using True key val rk by (simp add: migrate_slot_def img'_def)
    have mB: "m < B" using mk kB by simp
    from Bucket_Insert_compact[OF exact mB occ rdi img'_def]
    obtain m' where m': "m \<le> m'" "m' \<le> m + 1"
      and occ': "\<And>j. IsOccupied B img' j = (j < m')"
      and rdi': "\<And>j. IsReadable B img' j = (j < m')"
      and keep: "\<And>s. s < m \<Longrightarrow> array img' s = array imgk s"
      and new: "\<exists>s<m'. array img' s = (fst (array b k), snd (array b k))"
      by auto
    show ?thesis
    proof (rule exI[of _ "RemoveAt B bk k"], rule exI[of _ img'], rule exI[of _ "nk + 1"],
           rule exI[of _ m'], intro conjI)
      show "fold (migrate_slot B cmp h lm hb) [0..<Suc k] (b, HashTableBucketPage_zero, 0)
              = (RemoveAt B bk k, img', nk + 1)"
        using fS st by simp
      show "array (RemoveAt B bk k) = array b" using arr by (simp add: array_RemoveAt)
      show "\<forall>j. IsReadable B (RemoveAt B bk k) j
                  = (IsReadable B b j \<and> \<not> (j < Suc k \<and> (h (fst (array b j)) AND lm) = hb))"
        using rdb True by (auto simp add: IsReadable_RemoveAt less_Suc_eq)
      show "m' \<le> Suc k" using m' mk by simp
      show "\<forall>j. IsOccupied B img' j = (j < m')" using occ' by simp
      show "\<forall>j. IsReadable B img' j = (j < m')" using rdi' by simp
      show "\<forall>j<Suc k. (h (fst (array b j)) AND lm) = hb \<longrightarrow> (\<exists>s<m'. array img' s = array b j)"
      proof (intro allI impI)
        fix j assume j: "j < Suc k" and mj: "(h (fst (array b j)) AND lm) = hb"
        show "\<exists>s<m'. array img' s = array b j"
        proof (cases "j = k")
          case True
          with new show ?thesis by simp
        next
          case False
          with j have "j < k" by simp
          from moved[OF this mj] obtain s where s: "s < m" "array imgk s = array b j" by blast
          with keep[of s] m' have "s < m'" "array img' s = array b j" by simp_all
          then show ?thesis by blast
        qed
      qed
    qed
  qed
qed

text \<open>
  The migration loop on a full bucket. Every slot of a full bucket is live when the loop
  \<open>for (i = 0; i < size && IsReadable(i); ++i)\<close> reaches it, so the exit on an
  unreadable slot never fires and the loop computes what the scan of every slot in
  \<open>[0, B)\<close> computes. Started on a zeroed image bucket, it clears each slot whose key's
  hash under the mask equals the high bits and leaves its value to be found under its
  key in the image bucket; every other slot stays live with the same key and value.
\<close>

lemma migrate_loop_on_full_bucket:
  assumes full: "IsFull B bucket"
      and exact: "\<And>a b. (cmp a b = 0) = (a = b)"
      and res: "migrate_loop B cmp h local_mask high_bits (NumReadable B bucket) 0
                  (bucket, HashTableBucketPage_zero, 0) = (bucket', image', n)"
  shows "migrate_loop B cmp h local_mask high_bits (NumReadable B bucket) 0 (bucket, img, 0)
           = migrate_every_slot B cmp h local_mask high_bits (bucket, img, 0)
       \<and> (\<forall>j<B. IsReadable B bucket j \<and>
             (if (h (KeyAt B bucket j) AND local_mask) = high_bits
              then \<not> IsReadable B bucket' j
                   \<and> ValueAt B bucket j \<in> set (snd (Bucket_GetValue B cmp image' (KeyAt B bucket j) []))
              else IsReadable B bucket' j
                   \<and> KeyAt B bucket' j = KeyAt B bucket j \<and> ValueAt B bucket' j = ValueAt B bucket j))"
proof -
  have allr: "\<And>j. j < B \<Longrightarrow> IsReadable B bucket j"
    using full by (rule IsFull_all_readable)
  have nr: "NumReadable B bucket = B" using full by (simp add: IsFull_def)
  have loop: "migrate_loop B cmp h local_mask high_bits B 0 (bucket, im, 0)
                = fold (migrate_slot B cmp h local_mask high_bits) [0..<B] (bucket, im, 0)" for im
    using migrate_loop_is_fold[of 0 B bucket cmp h local_mask high_bits im 0] allr by simp
  from migrate_prefix[OF exact allr order_refl, where h=h and lm=local_mask and hb=high_bits]
  obtain bk imgk nk m where
        f: "fold (migrate_slot B cmp h local_mask high_bits) [0..<B] (bucket, HashTableBucketPage_zero, 0)
              = (bk, imgk, nk)"
    and arr: "array bk = array bucket"
    and rdb: "\<And>j. IsReadable B bk j
                = (IsReadable B bucket j \<and> \<not> (j < B \<and> (h (fst (array bucket j)) AND local_mask) = high_bits))"
    and mB: "m \<le> B"
    and occ: "\<And>j. IsOccupied B imgk j = (j < m)"
    and rdi: "\<And>j. IsReadable B imgk j = (j < m)"
    and moved: "\<And>j. j < B \<Longrightarrow> (h (fst (array bucket j)) AND local_mask) = high_bits
                  \<Longrightarrow> \<exists>s<m. array imgk s = array bucket j"
    by auto
  have eqs: "bucket' = bk" "image' = imgk"
    using res f loop[of HashTableBucketPage_zero] nr by simp_all
  have slot: "IsReadable B bucket j \<and>
             (if (h (KeyAt B bucket j) AND local_mask) = high_bits
              then \<not> IsReadable B bucket' j
                   \<and> ValueAt B bucket j \<in> set (snd (Bucket_GetValue B cmp image' (KeyAt B bucket j) []))
              else IsReadable B bucket' j
                   \<and> KeyAt B bucket' j = KeyAt B bucket j \<and> ValueAt B bucket' j = ValueAt B bucket j)"
    if jB: "j < B" for j
  proof -
    have rj: "IsReadable B bucket j" using allr[OF jB] .
    have key: "KeyAt B bucket j = fst (array bucket j)" and val: "ValueAt B bucket j = snd (array bucket j)"
      using rj by (simp_all add: KeyAt_def ValueAt_def)
    show ?thesis
    proof (cases "(h (fst (array bucket j)) AND local_mask) = high_bits")
      case True
      from moved[OF jB True] obtain s where s: "s < m" "array imgk s = array bucket j" by blast
      have "set (snd (Bucket_GetValue B cmp imgk (fst (array bucket j)) []))
              = {snd (array imgk t) | t. t < m \<and> fst (array imgk t) = fst (array bucket j)}"
        using GetValue_loop_compact[OF mB occ rdi, of 0 cmp "fst (array bucket j)" "[]"]
        by (simp add: Bucket_GetValue_def Let_def exact)
      with s have "snd (array bucket j) \<in> set (snd (Bucket_GetValue B cmp imgk (fst (array bucket j)) []))"
        by force
      with True rj rdb[of j] jB show ?thesis by (simp add: key val eqs)
    next
      case False
      with rj rdb[of j] arr show ?thesis by (simp add: key val eqs KeyAt_def ValueAt_def)
    qed
  qed
  show ?thesis
    using loop[of img] nr slot by (simp add: migrate_every_slot_def)
qed

subsection \<open>Frames and pages during a split\<close>

lemma UnpinPgImp_keeps_data:
  "data (pages (snd (UnpinPgImp p d s)) f) = data (pages s f)"
  "page_table (snd (UnpinPgImp p d s)) = page_table s"
  by (auto simp add: UnpinPgImp_def FlushPageReally_def WritePage_def Let_def)

lemma UnpinPage_keeps:
  "directory_at (UnpinPage p d ht) f = directory_at ht f"
  "bucket_at (UnpinPage p d ht) f = bucket_at ht f"
  "page_table (buffer_pool_manager (UnpinPage p d ht)) = page_table (buffer_pool_manager ht)"
  by (simp_all add: UnpinPage_def directory_at_def bucket_at_def UnpinPgImp_keeps_data)

lemma write_data_views:
  "bucket_at (write_data f (BucketData b) ht) g = (if g = f then Inr b else bucket_at ht g)"
  "directory_at (write_data f (DirectoryData d) ht) g = (if g = f then Inr d else directory_at ht g)"
  "directory_at (write_data f (BucketData b) ht) g = (if g = f then Inl WrongPageKind else directory_at ht g)"
  "bucket_at (write_data f (DirectoryData d) ht) g = (if g = f then Inl WrongPageKind else bucket_at ht g)"
  "page_table (buffer_pool_manager (write_data f pd ht)) = page_table (buffer_pool_manager ht)"
  "free_list (buffer_pool_manager (write_data f pd ht)) = free_list (buffer_pool_manager ht)"
  "replacer (buffer_pool_manager (write_data f pd ht)) = replacer (buffer_pool_manager ht)"
  by (simp_all add: write_data_def bucket_at_def directory_at_def as_bucket_def as_directory_def)

lemma NewPgImp_fresh_frame:
  assumes "NewPgImp s = Inr (Some (p, f), s')"
  shows "f \<in> set (free_list s) \<union> set (lru_list (replacer s))"
    and "data (pages s' f) = 0"
    and "g \<noteq> f \<Longrightarrow> data (pages s' g) = data (pages s g)"
    and "page_table s' p = Some f"
  using assms
  by (auto simp add: NewPgImp_def AllocatePage_def FindFreshPage_def Victim_def
                     FlushPageReally_def WritePage_def Let_def
           split: prod.splits if_splits sum.splits list.splits option.splits)

lemma table_fields_kept:
  "BUCKET_ARRAY_SIZE (snd (FetchBucketPage p ht)) = BUCKET_ARRAY_SIZE ht"
  "comparator (snd (FetchBucketPage p ht)) = comparator ht"
  "hash_fn (snd (FetchBucketPage p ht)) = hash_fn ht"
  "BUCKET_ARRAY_SIZE (write_data f pd ht) = BUCKET_ARRAY_SIZE ht"
  "comparator (write_data f pd ht) = comparator ht"
  "hash_fn (write_data f pd ht) = hash_fn ht"
  by (simp_all add: FetchBucketPage_def FetchPage_def write_data_def split: prod.splits)

lemma NewBucketPage_fields_kept:
  assumes "NewBucketPage ht = Inr (r, ht2)"
  shows "BUCKET_ARRAY_SIZE ht2 = BUCKET_ARRAY_SIZE ht" "comparator ht2 = comparator ht"
        "hash_fn ht2 = hash_fn ht"
        "NewPgImp (buffer_pool_manager ht) = Inr (r, buffer_pool_manager ht2)"
  using assms
  by (auto simp add: NewBucketPage_def NewPage_def split: sum.splits prod.splits)

text \<open>
  Claim C3. One pass of the loop of \<open>SplitInsert\<close> that finds the bucket of the key
  full and returns. The directory page and the bucket page are pinned, in different
  frames, and the comparator returns 0 exactly on equal keys. The pass inserts nothing
  and \<open>SplitInsert\<close> goes on from the table it leaves. In that table the directory
  gives the split image slot of the bucket's slot a page that is resident in a frame other
  than the bucket's, and the two frames hold the result of scanning every slot in
  \<open>[0, B)\<close> of the old bucket against a zeroed image bucket, under the local-depth mask
  of the bucket's slot and the high bits of the image slot. Every slot \<open>j\<close> of the old
  bucket was live; if its key's 32-bit hash under the mask equals the high bits, the slot
  is cleared in the old bucket's frame and its value is found under its key in the image
  bucket's frame, otherwise the slot stays live there with the same key and value.
\<close>

theorem SplitInsert_round_migrates_every_slot:
  assumes ret: "SplitInsert_round key val dir_f ht = Inr (res, grown, ht')"
      and dir: "directory_at ht dir_f = Inr dir"
      and idx: "bucket_idx = KeyToDirectoryIndex ht key dir"
      and fetch: "FetchBucketPage (GetBucketPageId dir bucket_idx) ht = (Some bucket_f, ht1)"
      and bucket: "bucket_at ht1 bucket_f = Inr bucket"
      and full: "IsFull (BUCKET_ARRAY_SIZE ht) bucket"
      and pinned_dir: "dir_f \<notin> set (free_list (buffer_pool_manager ht1))
                               \<union> set (lru_list (replacer (buffer_pool_manager ht1)))"
      and pinned_bucket: "bucket_f \<notin> set (free_list (buffer_pool_manager ht1))
                               \<union> set (lru_list (replacer (buffer_pool_manager ht1)))"
      and frames: "bucket_f \<noteq> dir_f"
      and exact: "\<And>a b. (comparator ht a b = 0) = (a = b)"
      and B: "B = BUCKET_ARRAY_SIZE ht"
  shows "res = None
       \<and> SplitInsert_loop key val dir_f dir_grown ht
           = SplitInsert_loop key val dir_f (dir_grown \<or> grown) ht'
       \<and> (\<exists>dir' image_bucket_idx image_f bucket' image_bucket' n.
             directory_at ht' dir_f = Inr dir'
           \<and> GetSplitImageIndex dir' bucket_idx = Inr image_bucket_idx
           \<and> page_table (buffer_pool_manager ht') (GetBucketPageId dir' image_bucket_idx) = Some image_f
           \<and> image_f \<noteq> bucket_f
           \<and> bucket_at ht' bucket_f = Inr bucket'
           \<and> bucket_at ht' image_f = Inr image_bucket'
           \<and> migrate_every_slot B (comparator ht) (Hash ht)
                 (GetLocalDepthMask dir' bucket_idx) (GetLocalHighBits dir' image_bucket_idx)
                 (bucket, HashTableBucketPage_zero, 0) = (bucket', image_bucket', n)
           \<and> (\<forall>j<B. IsReadable B bucket j \<and>
                 (if (Hash ht (KeyAt B bucket j) AND GetLocalDepthMask dir' bucket_idx)
                       = GetLocalHighBits dir' image_bucket_idx
                  then \<not> IsReadable B bucket' j
                       \<and> ValueAt B bucket j
                            \<in> set (snd (Bucket_GetValue B (comparator ht) image_bucket' (KeyAt B bucket j) []))
                  else IsReadable B bucket' j
                       \<and> KeyAt B bucket' j = KeyAt B bucket j
                       \<and> ValueAt B bucket' j = ValueAt B bucket j)))"
proof -
  let ?grow = "GetGlobalDepth dir \<le> GetLocalDepth dir bucket_idx"
  let ?dir1 = "if ?grow then Grow dir else dir"
  let ?htw = "write_data dir_f (DirectoryData ?dir1) ht1"
  have ht1: "ht1 = snd (FetchBucketPage (GetBucketPageId dir bucket_idx) ht)"
    using fetch by simp
  have f1: "BUCKET_ARRAY_SIZE ht1 = B" "comparator ht1 = comparator ht" "hash_fn ht1 = hash_fn ht"
    unfolding ht1 B by (simp_all add: table_fields_kept)
  have full1: "IsFull B bucket" using full B by simp
  note start = dir fetch [unfolded idx] bucket full1 f1
  note unfold = SplitInsert_round_def bind_fault_def deref_def Let_def idx
  obtain image_bucket_idx where
    gsi: "GetSplitImageIndex ?dir1 bucket_idx = Inr image_bucket_idx"
    using ret start
    by (cases "GetSplitImageIndex ?dir1 bucket_idx") (simp_all add: unfold)
  obtain ip ht2 where alloc0: "NewBucketPage ?htw = Inr (ip, ht2)"
    using ret start gsi
    by (cases "NewBucketPage ?htw") (auto simp add: unfold)
  obtain image_bucket_page_id image_f where ip: "ip = Some (image_bucket_page_id, image_f)"
    using ret start gsi alloc0
    by (cases ip) (auto simp add: unfold)
  note alloc = alloc0 [unfolded ip]
  note kept2 = NewBucketPage_fields_kept [OF alloc]
  have lists: "free_list (buffer_pool_manager ?htw) = free_list (buffer_pool_manager ht1)"
              "replacer (buffer_pool_manager ?htw) = replacer (buffer_pool_manager ht1)"
    by (simp_all only: write_data_views)
  note fresh = NewPgImp_fresh_frame [OF kept2(4)]
  have img_in: "image_f \<in> set (free_list (buffer_pool_manager ht1))
                         \<union> set (lru_list (replacer (buffer_pool_manager ht1)))"
    using fresh(1) unfolding lists .
  have ne_dir: "image_f \<noteq> dir_f" using img_in pinned_dir by auto
  have ne_bucket: "image_f \<noteq> bucket_f" using img_in pinned_bucket by auto
  let ?dir2 = "SetBucketPageId ?dir1 image_bucket_idx image_bucket_page_id"
  let ?dir3 = "SetLocalDepth ?dir2 image_bucket_idx (GetLocalDepth ?dir2 bucket_idx)"
  let ?ht3 = "write_data dir_f (DirectoryData ?dir3) ht2"
  define dir3 where "dir3 = ?dir3"
  define local_mask where "local_mask = GetLocalDepthMask dir3 bucket_idx"
  define high_bits where "high_bits = GetLocalHighBits dir3 image_bucket_idx"
  have f3: "comparator ?ht3 = comparator ht" "Hash ?ht3 = Hash ht" "BUCKET_ARRAY_SIZE ?ht3 = B"
    using kept2 f1 by (simp_all add: table_fields_kept Hash_def fun_eq_iff)
  have data0: "data (pages (buffer_pool_manager ht2) image_f) = 0"
    by (rule fresh(2))
  have img0: "bucket_at ?ht3 image_f = Inr HashTableBucketPage_zero"
  proof -
    have "bucket_at ?ht3 image_f = bucket_at ht2 image_f"
      using ne_dir by (simp only: write_data_views if_False)
    also have "\<dots> = Inr HashTableBucketPage_zero"
      using data0 by (simp add: bucket_at_def as_bucket_def zero_page_data_def)
    finally show ?thesis .
  qed
  obtain bucket' image_bucket' n where
    mig: "migrate_loop B (comparator ht) (Hash ht) local_mask high_bits (NumReadable B bucket) 0
            (bucket, HashTableBucketPage_zero, 0) = (bucket', image_bucket', n)"
    by (cases "migrate_loop B (comparator ht) (Hash ht) local_mask high_bits (NumReadable B bucket) 0
            (bucket, HashTableBucketPage_zero, 0)") auto
  let ?ht4 = "write_data image_f (BucketData image_bucket')
                (write_data bucket_f (BucketData bucket') ?ht3)"
  have result: "SplitInsert_round key val dir_f ht =
                  Inr (None, ?grow,
                       UnpinPage (GetBucketPageId dir bucket_idx) (n \<noteq> 0)
                         (UnpinPage image_bucket_page_id True ?ht4))"
    using start gsi alloc img0 mig f3
    by (simp add: unfold local_mask_def high_bits_def dir3_def)
  have "Inr (res, grown, ht') =
          (Inr (None, ?grow,
                UnpinPage (GetBucketPageId dir bucket_idx) (n \<noteq> 0)
                  (UnpinPage image_bucket_page_id True ?ht4))
             :: fault + (bool option \<times> bool \<times> ('a, 'b) ExtendibleHashTable))"
    using ret result by (rule trans [OF sym])
  hence res: "res = None"
    and ht': "ht' = UnpinPage (GetBucketPageId dir bucket_idx) (n \<noteq> 0)
                      (UnpinPage image_bucket_page_id True ?ht4)"
    unfolding sum.inject prod.inject by (rule conjunct1, rule conjunct2 [THEN conjunct2])
  have d': "directory_at ht' dir_f = Inr dir3"
    using ne_dir frames
    by (simp add: ht' UnpinPage_keeps write_data_views dir3_def)
  have ld3: "GetLocalDepth dir3 bucket_idx = GetLocalDepth ?dir1 bucket_idx"
    by (simp add: dir3_def GetLocalDepth_def SetLocalDepth_def SetBucketPageId_def)
  have gsi3: "GetSplitImageIndex dir3 bucket_idx = Inr image_bucket_idx"
    using gsi unfolding GetSplitImageIndex_def ld3 .
  have pid3: "GetBucketPageId dir3 image_bucket_idx = image_bucket_page_id"
    by (simp add: dir3_def GetBucketPageId_def SetLocalDepth_def SetBucketPageId_def)
  have pt: "page_table (buffer_pool_manager ht') image_bucket_page_id = Some image_f"
    using fresh(4)
    by (simp add: ht' UnpinPage_keeps write_data_views)
  have b': "bucket_at ht' bucket_f = Inr bucket'"
    using ne_bucket
    by (simp add: ht' UnpinPage_keeps write_data_views)
  have i': "bucket_at ht' image_f = Inr image_bucket'"
    by (simp add: ht' UnpinPage_keeps write_data_views)
  note m = migrate_loop_on_full_bucket
             [OF full1 exact mig, of HashTableBucketPage_zero]
  have every: "migrate_every_slot B (comparator ht) (Hash ht) local_mask high_bits
                 (bucket, HashTableBucketPage_zero, 0) = (bucket', image_bucket', n)"
    using m mig by simp
  from m have slots: "\<forall>j<B. IsReadable B bucket j \<and>
                 (if (Hash ht (KeyAt B bucket j) AND local_mask) = high_bits
                  then \<not> IsReadable B bucket' j
                       \<and> ValueAt B bucket j
                            \<in> set (snd (Bucket_GetValue B (comparator ht) image_bucket' (KeyAt B bucket j) []))
                  else IsReadable B bucket' j
                       \<and> KeyAt B bucket' j = KeyAt B bucket j
                       \<and> ValueAt B bucket' j = ValueAt B bucket j)"
    by (rule conjunct2)
  have again: "SplitInsert_loop key val dir_f dir_grown ht
                 = SplitInsert_loop key val dir_f (dir_grown \<or> grown) ht'"
    by (subst SplitInsert_loop.simps) (simp add: ret res)
  show ?thesis
  proof (rule conjI [OF res], rule conjI [OF again], rule exI [of _ dir3], rule exI [of _ image_bucket_idx],
         rule exI [of _ image_f], rule exI [of _ bucket'], rule exI [of _ image_bucket'],
         rule exI [of _ n], intro conjI)
    show "directory_at ht' dir_f = Inr dir3" by (rule d')
    show "GetSplitImageIndex dir3 bucket_idx = Inr image_bucket_idx" by (rule gsi3)
    show "page_table (buffer_pool_manager ht') (GetBucketPageId dir3 image_bucket_idx) = Some image_f"
      using pt pid3 by simp
    show "image_f \<noteq> bucket_f" by (rule ne_bucket)
    show "bucket_at ht' bucket_f = Inr bucket'" by (rule b')
    show "bucket_at ht' image_f = Inr image_bucket'" by (rule i')
    show "migrate_every_slot B (comparator ht) (Hash ht)
            (GetLocalDepthMask dir3 bucket_idx) (GetLocalHighBits dir3 image_bucket_idx)
            (bucket, HashTableBucketPage_zero, 0) = (bucket', image_bucket', n)"
      using every by (simp add: local_mask_def high_bits_def)
    show "\<forall>j<B. IsReadable B bucket j \<and>
                 (if (Hash ht (KeyAt B bucket j) AND GetLocalDepthMask dir3 bucket_idx)
                       = GetLocalHighBits dir3 image_bucket_idx
                  then \<not> IsReadable B bucket' j
                       \<and> ValueAt B bucket j
                            \<in> set (snd (Bucket_GetValue B (comparator ht) image_bucket' (KeyAt B bucket j) []))
                  else IsReadable B bucket' j
                       \<and> KeyAt B bucket' j = KeyAt B bucket j
                       \<and> ValueAt B bucket' j = ValueAt B bucket j)"
      using slots by (simp add: local_mask_def high_bits_def)
  qed
qed

lemma split_scenario_eval:
  "SplitInsert_round 4 40 0 table_before_split = Inr (None, True, table_after_split)"
  "directory_at table_before_split 0 = Inr directory_before_split"
  "KeyToDirectoryIndex table_before_split 4 directory_before_split = 0"
  "FetchBucketPage (GetBucketPageId directory_before_split 0) table_before_split
     = (Some 1, table_bucket_fetched)"
  "bucket_at table_bucket_fetched 1 = Inr bucket_before_split"
  "BUCKET_ARRAY_SIZE table_before_split = 2"
  "comparator table_before_split = IntComparator"
  "IsFull 2 bucket_before_split"
  "free_list (buffer_pool_manager table_bucket_fetched) = [3, 4, 5, 6, 7, 8, 9]"
  "lru_list (replacer (buffer_pool_manager table_bucket_fetched)) = [2]"
  "directory_at table_after_split 0 = Inr directory_after_split"
  "GetSplitImageIndex directory_after_split 0 = Inr 1"
  "GetBucketPageId directory_after_split 1 = 3"
  "page_table (buffer_pool_manager table_after_split) 3 = Some 3"
  "bucket_at table_after_split 3 = Inr (projr (bucket_at table_after_split 3))"
  "bucket_at table_after_split 1 = Inr (projr (bucket_at table_after_split 1))"
  "GetLocalDepthMask directory_after_split 0 = 1"
  "GetLocalHighBits directory_after_split 1 = 1"
  "KeyAt 2 bucket_before_split 0 = 3" "ValueAt 2 bucket_before_split 0 = 30"
  "KeyAt 2 bucket_before_split (Suc 0) = 2" "ValueAt 2 bucket_before_split (Suc 0) = 20"
  "(Hash table_before_split 3 AND 1) = 1" "(Hash table_before_split 2 AND 1) = 0"
  by (simp_all add: split_defs bpm_defs dir_defs ht_defs bucket_defs Let_def upt_rec insert_Diff_if
        cong: bind_fault_weak_cong prod.case_cong_weak let_weak_cong)

theorem SplitInsert_round_migrates_every_slot_witness:
  "SplitInsert_round 4 40 0 table_before_split = Inr (None, True, table_after_split)
   \<and> directory_at table_before_split 0 = Inr directory_before_split
   \<and> KeyToDirectoryIndex table_before_split 4 directory_before_split = 0
   \<and> FetchBucketPage (GetBucketPageId directory_before_split 0) table_before_split
         = (Some 1, table_bucket_fetched)
   \<and> bucket_at table_bucket_fetched 1 = Inr bucket_before_split
   \<and> IsFull (BUCKET_ARRAY_SIZE table_before_split) bucket_before_split
   \<and> 0 \<notin> set (free_list (buffer_pool_manager table_bucket_fetched))
             \<union> set (lru_list (replacer (buffer_pool_manager table_bucket_fetched)))
   \<and> 1 \<notin> set (free_list (buffer_pool_manager table_bucket_fetched))
             \<union> set (lru_list (replacer (buffer_pool_manager table_bucket_fetched)))
   \<and> SplitInsert_loop 4 40 0 False table_before_split
         = SplitInsert_loop 4 40 0 True table_after_split
   \<and> \<not> IsReadable 2 (projr (bucket_at table_after_split 1)) 0
   \<and> 30 \<in> set (snd (Bucket_GetValue 2 IntComparator (projr (bucket_at table_after_split 3)) 3 []))
   \<and> IsReadable 2 (projr (bucket_at table_after_split 1)) 1
   \<and> KeyAt 2 (projr (bucket_at table_after_split 1)) 1 = 2
   \<and> ValueAt 2 (projr (bucket_at table_after_split 1)) 1 = 20"
proof -
  note e = split_scenario_eval
  have idx: "0 = KeyToDirectoryIndex table_before_split 4 directory_before_split"
    by (simp add: e(3))
  have full: "IsFull (BUCKET_ARRAY_SIZE table_before_split) bucket_before_split"
    by (simp add: e(6) e(8))
  have pinned_dir: "0 \<notin> set (free_list (buffer_pool_manager table_bucket_fetched))
                      \<union> set (lru_list (replacer (buffer_pool_manager table_bucket_fetched)))"
    by (simp add: e(9) e(10))
  have pinned_bucket: "1 \<notin> set (free_list (buffer_pool_manager table_bucket_fetched))
                      \<union> set (lru_list (replacer (buffer_pool_manager table_bucket_fetched)))"
    by (simp add: e(9) e(10))
  have frames: "(1::frame_id_t) \<noteq> 0" by simp
  have exact: "\<And>a b. (comparator table_before_split a b = 0) = (a = b)"
    by (simp add: e(7) IntComparator_def)
  have B: "2 = BUCKET_ARRAY_SIZE table_before_split" by (simp add: e(6))
  note t = SplitInsert_round_migrates_every_slot
             [OF e(1) e(2) idx e(4) e(5) full pinned_dir pinned_bucket frames exact B, of False]
  from t have again: "SplitInsert_loop 4 40 0 False table_before_split
                        = SplitInsert_loop 4 40 0 True table_after_split"
    by simp
  from t obtain dir' image_bucket_idx image_f bucket' image_bucket' where
        d: "directory_at table_after_split 0 = Inr dir'"
    and i: "GetSplitImageIndex dir' 0 = Inr image_bucket_idx"
    and f: "page_table (buffer_pool_manager table_after_split) (GetBucketPageId dir' image_bucket_idx)
              = Some image_f"
    and b: "bucket_at table_after_split 1 = Inr bucket'"
    and im: "bucket_at table_after_split image_f = Inr image_bucket'"
    and slots: "\<forall>j<2. IsReadable 2 bucket_before_split j \<and>
                 (if (Hash table_before_split (KeyAt 2 bucket_before_split j)
                        AND GetLocalDepthMask dir' 0) = GetLocalHighBits dir' image_bucket_idx
                  then \<not> IsReadable 2 bucket' j
                       \<and> ValueAt 2 bucket_before_split j
                            \<in> set (snd (Bucket_GetValue 2 (comparator table_before_split) image_bucket'
                                          (KeyAt 2 bucket_before_split j) []))
                  else IsReadable 2 bucket' j
                       \<and> KeyAt 2 bucket' j = KeyAt 2 bucket_before_split j
                       \<and> ValueAt 2 bucket' j = ValueAt 2 bucket_before_split j)"
    by blast
  have dir': "dir' = directory_after_split" using d by (simp add: e(11))
  have idx': "image_bucket_idx = 1" using i by (simp add: dir' e(12))
  have image_f: "image_f = 3" using f by (simp add: dir' idx' e(13) e(14))
  have bucket': "bucket' = projr (bucket_at table_after_split 1)" using b by simp
  have image': "image_bucket' = projr (bucket_at table_after_split 3)" using im by (simp add: image_f)
  have s0: "\<not> IsReadable 2 (projr (bucket_at table_after_split 1)) 0
      \<and> 30 \<in> set (snd (Bucket_GetValue 2 IntComparator (projr (bucket_at table_after_split 3)) 3 []))"
    using slots [rule_format, of 0]
    by (simp add: dir' idx' bucket' image' e(7) e(17) e(18) e(19) e(20) e(23))
  have s1: "IsReadable 2 (projr (bucket_at table_after_split 1)) (Suc 0)
      \<and> KeyAt 2 (projr (bucket_at table_after_split 1)) (Suc 0) = 2
      \<and> ValueAt 2 (projr (bucket_at table_after_split 1)) (Suc 0) = 20"
    using slots [rule_format, of "Suc 0"]
    by (simp add: dir' idx' bucket' image' e(7) e(17) e(18) e(21) e(22) e(24))
  show ?thesis
    using e(1) e(2) e(3) e(4) e(5) full pinned_dir pinned_bucket again s0 s1 by simp
qed

section \<open>Extendible hash table: properties\<close>

text \<open>
  Claim C4. The claim is that the constructor leaves a directory of global depth 1
  whose slots 0 and 1, both of local depth 1, point to two different fresh bucket
  pages. The constructor allocates the two bucket pages (ids 1 and 2 on a fresh pool,
  after the directory's page 0) and stores the id of the first one in both slots: on a
  fresh pool of ten frames slot 0 and slot 1 both hold page 1, and page 2 is in no slot.
\<close>

theorem constructor_puts_bucket0_in_both_slots:
  "(case fresh_table 10 2 of
      Inl e \<Rightarrow> None
    | Inr ht \<Rightarrow>
        (case directory_of ht of
           None \<Rightarrow> None
         | Some d \<Rightarrow>
            Some (directory_page_id ht, global_depth d, local_depths d 0, local_depths d 1,
                  bucket_page_ids d 0, bucket_page_ids d 1,
                  bucket_page_ids d 0 = bucket_page_ids d 1,
                  next_page_id (buffer_pool_manager ht))))
   = Some (Some 0, 1, 1, 1, 1, 1, True, 3)"
  by (simp add: bpm_defs dir_defs ht_defs Let_def upt_rec insert_Diff_if
        cong: bind_fault_weak_cong prod.case_cong_weak let_weak_cong)

text \<open>
  Without a split the index answers as expected: a second insert of the same pair is
  refused, a removed pair is no longer found, and a second removal is refused.
\<close>

lemma round_trip_without_split:
  "(case fresh_table 10 2 of
      Inl e \<Rightarrow> None
    | Inr ht0 \<Rightarrow>
       (case Insert ht0 3 30 of
          Some (Inr (r1, ht1)) \<Rightarrow>
           (case Insert ht1 3 30 of
              Some (Inr (r2, ht2)) \<Rightarrow>
               (case GetValue ht2 3 [] of
                  Inr ((f1, vs1), ht3) \<Rightarrow>
                   (case Remove ht3 3 30 of
                      Some (Inr (r3, ht4)) \<Rightarrow>
                       (case GetValue ht4 3 [] of
                          Inr ((f2, vs2), ht5) \<Rightarrow>
                            (case Remove ht5 3 30 of
                               Some (Inr (r4, ht6)) \<Rightarrow> Some (r1, r2, f1, vs1, r3, f2, vs2, r4)
                             | _ \<Rightarrow> None)
                        | _ \<Rightarrow> None)
                    | _ \<Rightarrow> None)
                | _ \<Rightarrow> None)
            | _ \<Rightarrow> None)
        | _ \<Rightarrow> None))
   = Some (True, False, True, [30], True, False, [], False)"
  by (simp add: bpm_defs dir_defs ht_defs bucket_defs Let_def upt_rec insert_Diff_if
        cong: bind_fault_weak_cong prod.case_cong_weak let_weak_cong)

text \<open>
  Claim C2. The claim is that a pair inserted and not removed is always found, also
  across bucket splits. With buckets of two slots and keys hashed to their own bits:
  \<open>Insert(3, 30)\<close> and \<open>Insert(2, 20)\<close> succeed and fill the one bucket both directory slots
  point to, and \<open>GetValue(3)\<close> is \<open>[30]\<close>. \<open>Insert(4, 40)\<close> then splits that bucket: the
  directory grows to depth 2, the pair (3, 30) moves to the image bucket at slot 1, and
  the insert returns false with (4, 40) stored nowhere. After it the key 3 is looked up
  at slot 3, which still points to the old bucket: \<open>GetValue(3)\<close> returns false and
  the empty list, although (3, 30) was inserted and never removed.
\<close>

theorem split_loses_inserted_key:
  "(case fresh_table 10 2 of
      Inl e \<Rightarrow> None
    | Inr ht0 \<Rightarrow>
       (case Insert ht0 3 30 of
          Some (Inr (r1, ht1)) \<Rightarrow>
           (case Insert ht1 2 20 of
              Some (Inr (r2, ht2)) \<Rightarrow>
               (case GetValue ht2 3 [] of
                  Inr ((f1, vs1), ht3) \<Rightarrow>
                   (case Insert ht3 4 40 of
                      Some (Inr (r3, ht4)) \<Rightarrow>
                       (case GetValue ht4 3 [] of
                          Inr ((f2, vs2), ht5) \<Rightarrow>
                            (case GetValue ht5 4 [] of
                               Inr ((f3, vs3), ht6) \<Rightarrow>
                                 Some (r1, r2, vs1, r3, f2, vs2, vs3,
                                       map_option global_depth (directory_of ht6),
                                       map_option (\<lambda>d. map (bucket_page_ids d) [0, 1, 2, 3])
                                         (directory_of ht6))
                             | _ \<Rightarrow> None)
                        | _ \<Rightarrow> None)
                    | _ \<Rightarrow> None)
                | _ \<Rightarrow> None)
            | _ \<Rightarrow> None)
        | _ \<Rightarrow> None))
   = Some (True, True, [30], False, False, [], [], Some 2, Some [1, 3, 1, 1])"
  by (simp add: bpm_defs dir_defs ht_defs bucket_defs Let_def upt_rec insert_Diff_if
        cong: bind_fault_weak_cong prod.case_cong_weak let_weak_cong)

end
